theory Spec2Isabelle
  imports Main "HOL-Library.Word"
begin

unbundle bit_operations_syntax

section \<open>Machine integers\<close>

text \<open>
  The driver's \<^verbatim>\<open>__u32\<close> and \<^verbatim>\<open>__u64\<close> fields are words. A C \<^verbatim>\<open>int\<close>, an
  \<^verbatim>\<open>atomic_t\<close> and an \<^verbatim>\<open>int64_t\<close> are HOL integers on which every arithmetic
  step is wrapped to the two's-complement range (the kernel is built with wrapping signed
  arithmetic), so the model leaves the 32 and 64 bit ranges exactly where the code does.
\<close>

type_synonym u32 = "32 word"
type_synonym u64 = "64 word"

definition wrap32 :: "int \<Rightarrow> int" where
  "wrap32 x = (x + 2147483648) mod 4294967296 - 2147483648"

definition wrap64 :: "int \<Rightarrow> int" where
  "wrap64 x = (x + 9223372036854775808) mod 18446744073709551616 - 9223372036854775808"

text \<open>C division truncates towards zero. A zero divisor is undefined in C; the arm64
  \<^verbatim>\<open>sdiv\<close> instruction gives 0, which is also what HOL's \<open>div\<close> gives.\<close>

definition c_div :: "int \<Rightarrow> int \<Rightarrow> int" where
  "c_div a b = sgn a * sgn b * (\<bar>a\<bar> div \<bar>b\<bar>)"

text \<open>The atomic operations of \<^verbatim>\<open>linux/atomic.h\<close> that the driver calls, each returning
  the value the C call returns together with the counter's new value.\<close>

definition atomic_inc_return :: "int \<Rightarrow> int \<times> int" where
  "atomic_inc_return c = (wrap32 (c + 1), wrap32 (c + 1))"

definition atomic_dec_and_test :: "int \<Rightarrow> bool \<times> int" where
  "atomic_dec_and_test c = (wrap32 (c - 1) = 0, wrap32 (c - 1))"

definition atomic_dec_if_positive :: "int \<Rightarrow> int \<times> int" where
  "atomic_dec_if_positive c =
     (let dec = wrap32 (c - 1) in if dec < 0 then (dec, c) else (dec, dec))"

section \<open>Constants\<close>

text \<open>Linux error numbers.\<close>

definition EINVAL :: int where "EINVAL = 22"
definition ENOMEM :: int where "ENOMEM = 12"
definition EFAULT :: int where "EFAULT = 14"
definition ETIMEDOUT :: int where "ETIMEDOUT = 110"

text \<open>Register offsets and flag bits of \<^verbatim>\<open>rknpu_ioctl.h\<close>.\<close>

definition RKNPU_OFFSET_PC_OP_EN :: u32 where "RKNPU_OFFSET_PC_OP_EN = 0x8"
definition RKNPU_OFFSET_PC_DATA_ADDR :: u32 where "RKNPU_OFFSET_PC_DATA_ADDR = 0x10"
definition RKNPU_OFFSET_PC_DATA_AMOUNT :: u32 where "RKNPU_OFFSET_PC_DATA_AMOUNT = 0x14"
definition RKNPU_OFFSET_PC_TASK_CONTROL :: u32 where "RKNPU_OFFSET_PC_TASK_CONTROL = 0x30"
definition RKNPU_OFFSET_PC_DMA_BASE_ADDR :: u32 where "RKNPU_OFFSET_PC_DMA_BASE_ADDR = 0x34"
definition RKNPU_OFFSET_INT_MASK :: u32 where "RKNPU_OFFSET_INT_MASK = 0x20"
definition RKNPU_OFFSET_INT_CLEAR :: u32 where "RKNPU_OFFSET_INT_CLEAR = 0x24"
definition RKNPU_INT_CLEAR :: u32 where "RKNPU_INT_CLEAR = 0x1ffff"
definition RKNPU_PC_DATA_EXTRA_AMOUNT :: u32 where "RKNPU_PC_DATA_EXTRA_AMOUNT = 4"

definition RKNPU_JOB_PC :: u32 where "RKNPU_JOB_PC = 1"
definition RKNPU_JOB_NONBLOCK :: u32 where "RKNPU_JOB_NONBLOCK = 2"
definition RKNPU_JOB_PINGPONG :: u32 where "RKNPU_JOB_PINGPONG = 4"

text \<open>Modelled from the spec: the header \<^verbatim>\<open>rknpu_job.h\<close>, which declares the core
  masks, the core limit and the two job state bits, is not among the sources. The spec
  bounds the core count by three and names a core mask as the bitmask of the
  participating execution units (bit \<open>i\<close> for core \<open>i\<close>); the automatic mask is the empty
  one, the value \<^verbatim>\<open>rknpu_core_mask\<close> falls back to. The two state bits are distinct
  single bits of the job's flag word.\<close>

definition RKNPU_MAX_CORES :: nat where "RKNPU_MAX_CORES = 3"
definition RKNPU_CORE_AUTO_MASK :: u32 where "RKNPU_CORE_AUTO_MASK = 0"
definition RKNPU_CORE0_MASK :: u32 where "RKNPU_CORE0_MASK = 1"
definition RKNPU_CORE1_MASK :: u32 where "RKNPU_CORE1_MASK = 2"
definition RKNPU_CORE2_MASK :: u32 where "RKNPU_CORE2_MASK = 4"
definition RKNPU_JOB_DONE :: u32 where "RKNPU_JOB_DONE = 1"
definition RKNPU_JOB_ASYNC :: u32 where "RKNPU_JOB_ASYNC = 2"

section \<open>Data model\<close>

text \<open>\<^verbatim>\<open>struct rknpu_task\<close>: one hardware task of the task array the runtime built.\<close>

record rknpu_task =
  task_flags :: u32
  op_idx :: u32
  enable_mask :: u32
  task_int_mask :: u32
  int_clear :: u32
  task_int_status :: u32
  regcfg_amount :: u32
  regcfg_offset :: u32
  regcmd_addr :: u64

record rknpu_subcore_task =
  sub_task_start :: u32
  sub_task_number :: u32

text \<open>\<^verbatim>\<open>struct rknpu_submit\<close>; the array \<^verbatim>\<open>subcore_task[5]\<close> is a function of the index.
  The fence and elapsed-time fields carry no behaviour of this model and are left out.\<close>

record rknpu_submit =
  flags :: u32
  timeout :: u32
  task_start :: u32
  task_number :: u32
  task_counter :: u32
  task_obj_addr :: u64
  task_base_addr :: u64
  core_mask :: u32
  subcore_task :: "nat \<Rightarrow> rknpu_subcore_task"

text \<open>\<^verbatim>\<open>struct rknpu_job\<close>, by the fields the functions of \<^verbatim>\<open>rknpu_job.c\<close> use. The
  per-core arrays are functions of the core index; the two task pointers are the index of
  the task in the task array, or \<open>None\<close> for the null pointer. Time stamps are left out.\<close>

record rknpu_job =
  args :: rknpu_submit
  args_owner :: bool
  use_core_num :: int
  run_count :: int
  interrupt_count :: int
  submit_count :: "nat \<Rightarrow> int"
  job_flags :: u32
  ret :: int
  first_task :: "int option"
  last_task :: "int option"
  int_mask :: "nat \<Rightarrow> u32"
  int_status :: "nat \<Rightarrow> u32"
  irq_entry :: "nat \<Rightarrow> bool"

record rknpu_config =
  pc_data_amount_scale :: u32
  pc_task_number_bits :: u32
  pc_task_number_mask :: u32
  pc_task_status_offset :: u32
  num_irqs :: int
  max_submit_number :: u64
  cfg_core_mask :: u32

text \<open>\<^verbatim>\<open>struct rknpu_subcore_data\<close>: the pending queue holds job references in FIFO
  order, \<open>job\<close> is the running slot.\<close>

record rknpu_subcore_data =
  todo_list :: "nat list"
  job :: "nat option"
  task_num :: int

text \<open>What the driver does to the world outside its own memory, in program order: a
  32-bit register write on a core, a wake-up of a core's wait queue, the scheduling of a
  job's deferred clean-up, and a soft reset.\<close>

datatype event =
  RegWrite nat u32 u32
  | WakeUp nat
  | ScheduleWork nat
  | SoftReset

text \<open>The part of \<^verbatim>\<open>struct rknpu_device\<close> the job engine works on. Jobs live in a heap
  indexed by their reference; \<open>next_job\<close> is the next free reference. \<open>task_mem\<close> is the
  content of kernel memory read as a task array: the array at a task object's address,
  by task index.\<close>

record rknpu_device =
  subcore_datas :: "nat \<Rightarrow> rknpu_subcore_data"
  config :: rknpu_config
  soft_reseting :: bool
  jobs :: "nat \<Rightarrow> rknpu_job option"
  next_job :: nat
  events :: "event list"
  task_mem :: "u64 \<Rightarrow> int \<Rightarrow> rknpu_task"

text \<open>The one configuration of \<^verbatim>\<open>rknpu_drv.c\<close>.\<close>

definition rk3588_rknpu_config :: rknpu_config where
  "rk3588_rknpu_config =
     \<lparr>pc_data_amount_scale = 2, pc_task_number_bits = 12, pc_task_number_mask = 0xfff,
      pc_task_status_offset = 0x3c, num_irqs = 3, max_submit_number = 4095,
      cfg_core_mask = 0x7\<rparr>"

section \<open>State access\<close>

definition upd_job :: "nat \<Rightarrow> (rknpu_job \<Rightarrow> rknpu_job) \<Rightarrow> rknpu_device \<Rightarrow> rknpu_device" where
  "upd_job j f d = d\<lparr>jobs := (jobs d)(j := map_option f (jobs d j))\<rparr>"

definition upd_subcore ::
  "nat \<Rightarrow> (rknpu_subcore_data \<Rightarrow> rknpu_subcore_data) \<Rightarrow> rknpu_device \<Rightarrow> rknpu_device" where
  "upd_subcore c f d = d\<lparr>subcore_datas := (subcore_datas d)(c := f (subcore_datas d c))\<rparr>"

definition emit :: "event list \<Rightarrow> rknpu_device \<Rightarrow> rknpu_device" where
  "emit es d = d\<lparr>events := events d @ es\<rparr>"

text \<open>\<^verbatim>\<open>int max_submit_number = rknpu_dev->config->max_submit_number\<close>: the 64-bit
  configuration value narrowed to an \<^verbatim>\<open>int\<close>.\<close>

definition max_submit_int :: "rknpu_config \<Rightarrow> int" where
  "max_submit_int cfg = sint (ucast (max_submit_number cfg) :: u32)"

section \<open>The job engine (\<^verbatim>\<open>rknpu_job.c\<close>)\<close>

definition rknpu_wait_core_index :: "u32 \<Rightarrow> nat" where
  "rknpu_wait_core_index m =
     (if m = RKNPU_CORE0_MASK \<or> m = RKNPU_CORE0_MASK OR RKNPU_CORE1_MASK
          \<or> m = RKNPU_CORE0_MASK OR RKNPU_CORE1_MASK OR RKNPU_CORE2_MASK then 0
      else if m = RKNPU_CORE1_MASK then 1
      else if m = RKNPU_CORE2_MASK then 2
      else 0)"

definition rknpu_core_mask :: "nat \<Rightarrow> u32" where
  "rknpu_core_mask core_index =
     (if core_index = 0 then RKNPU_CORE0_MASK
      else if core_index = 1 then RKNPU_CORE1_MASK
      else if core_index = 2 then RKNPU_CORE2_MASK
      else RKNPU_CORE_AUTO_MASK)"

text \<open>A core index is a natural number here, so the C test \<^verbatim>\<open>core_index < 0\<close> has no
  counterpart. The \<^verbatim>\<open>__u32\<close> task numbers are read into an \<^verbatim>\<open>int\<close>.\<close>

definition rknpu_get_task_number :: "rknpu_config \<Rightarrow> rknpu_job \<Rightarrow> nat \<Rightarrow> int" where
  "rknpu_get_task_number cfg J core_index =
     (if core_index \<ge> RKNPU_MAX_CORES then 0
      else if num_irqs cfg > 1 then
        (if use_core_num J = 1 \<or> use_core_num J = 2
           then sint (sub_task_number (subcore_task (args J) core_index))
         else if use_core_num J = 3
           then sint (sub_task_number (subcore_task (args J) (core_index + 2)))
         else sint (task_number (args J)))
      else sint (task_number (args J)))"

text \<open>\<^verbatim>\<open>rknpu_job_free\<close>, \<^verbatim>\<open>rknpu_job_cleanup\<close>: the job leaves the heap.\<close>

definition rknpu_job_cleanup :: "rknpu_device \<Rightarrow> nat \<Rightarrow> rknpu_device" where
  "rknpu_job_cleanup d j = d\<lparr>jobs := (jobs d)(j := None)\<rparr>"

text \<open>What the caller of a submission cannot decide: whether the two \<^verbatim>\<open>kzalloc\<close> calls
  of \<^verbatim>\<open>rknpu_job_alloc\<close> succeed, which interrupts the cores raise while the caller
  sleeps in round \<open>n\<close> of \<^verbatim>\<open>rknpu_job_wait\<close> (core and the \<^verbatim>\<open>INT_STATUS\<close> value read),
  how many jiffies of the time-out are left when the sleeper is woken in that round
  (\<^verbatim>\<open>jiffies_left\<close>), whether that round still lies within the time-out counted from the
  commit (\<^verbatim>\<open>continue_wait\<close>), how many ticks of the kernel's clock a number of
  milliseconds is (\<^verbatim>\<open>ticks\<close>, fixed by the tick rate the kernel was built with), and the
  task status register read on the time-out path.\<close>

record wait_round =
  irqs :: "(nat \<times> u32) list"
  jiffies_left :: int
  continue_wait :: bool

record submit_env =
  job_kzalloc_ok :: bool
  args_kzalloc_ok :: bool
  rounds :: "nat \<Rightarrow> wait_round"
  ticks :: "u32 \<Rightarrow> int"
  pc_task_status :: u32

text \<open>The two kernel calls of \<^verbatim>\<open>rknpu_job_wait\<close>, on a 64-bit kernel.
  \<^verbatim>\<open>msecs_to_jiffies\<close> takes an \<^verbatim>\<open>unsigned int\<close> and returns \<^verbatim>\<open>MAX_JIFFY_OFFSET\<close>,
  which is \<^verbatim>\<open>(LONG_MAX >> 1) - 1\<close>, for a value that is negative as an \<^verbatim>\<open>int\<close>, and the
  number of ticks otherwise. \<^verbatim>\<open>wait_event_timeout\<close> returns a \<^verbatim>\<open>long\<close>: when the
  condition holds on entry it does not sleep and returns the time-out itself (1 for a
  time-out of 0); otherwise it sleeps and returns 0 when the condition is still false
  after the time-out, and else the jiffies that were left, but at least 1.\<close>

definition MAX_JIFFY_OFFSET :: int where
  "MAX_JIFFY_OFFSET = 0x3FFFFFFFFFFFFFFE"

definition msecs_to_jiffies :: "submit_env \<Rightarrow> u32 \<Rightarrow> int" where
  "msecs_to_jiffies env m = (if sint m < 0 then MAX_JIFFY_OFFSET else ticks env m)"

definition wait_event_timeout :: "bool \<Rightarrow> bool \<Rightarrow> int \<Rightarrow> int \<Rightarrow> int" where
  "wait_event_timeout on_entry after_sleep timeout_jiffies left =
     (if on_entry then (if timeout_jiffies = 0 then 1 else timeout_jiffies)
      else if after_sleep then max 1 (min timeout_jiffies left)
      else 0)"

text \<open>\<^verbatim>\<open>kzalloc\<close> zeroes the job: every field not set here is 0, false or null.\<close>

definition rknpu_job_alloc ::
  "rknpu_device \<Rightarrow> rknpu_submit \<Rightarrow> submit_env \<Rightarrow> (nat \<times> rknpu_device) option" where
  "rknpu_job_alloc d a env =
     (if \<not> job_kzalloc_ok env then None
      else
        let n = sint ((core_mask a AND RKNPU_CORE0_MASK)
                      + drop_bit 1 (core_mask a AND RKNPU_CORE1_MASK)
                      + drop_bit 2 (core_mask a AND RKNPU_CORE2_MASK));
            J = \<lparr>args = a, args_owner = False, use_core_num = n, run_count = n,
                 interrupt_count = n, submit_count = (\<lambda>_. 0), job_flags = 0, ret = 0,
                 first_task = None, last_task = None, int_mask = (\<lambda>_. 0),
                 int_status = (\<lambda>_. 0), irq_entry = (\<lambda>_. False)\<rparr>;
            j = next_job d
        in if flags a AND RKNPU_JOB_NONBLOCK = 0
           then Some (j, d\<lparr>jobs := (jobs d)(j \<mapsto> J), next_job := Suc j\<rparr>)
           else if \<not> args_kzalloc_ok env then None
           else Some (j, d\<lparr>jobs := (jobs d)(j \<mapsto> J\<lparr>args_owner := True\<rparr>),
                             next_job := Suc j\<rparr>))"

text \<open>The task range of a core before batching (lines 333 to 374 of
  \<^verbatim>\<open>rknpu_job_subcore_commit_pc\<close>): start index and count, as \<^verbatim>\<open>int\<close>s.\<close>

definition subcore_range :: "rknpu_config \<Rightarrow> rknpu_job \<Rightarrow> nat \<Rightarrow> int \<times> int" where
  "subcore_range cfg J core_index =
     (if num_irqs cfg > 1 then
        (if use_core_num J = 1 \<or> use_core_num J = 2
           then (sint (sub_task_start (subcore_task (args J) core_index)),
                 sint (sub_task_number (subcore_task (args J) core_index)))
         else if use_core_num J = 3
           then (sint (sub_task_start (subcore_task (args J) (core_index + 2))),
                 sint (sub_task_number (subcore_task (args J) (core_index + 2))))
         else (sint (task_start (args J)), sint (task_number (args J))))
      else (sint (task_start (args J)), sint (task_number (args J))))"

text \<open>The batch handed to hardware in this round (lines 376 to 380): first task index,
  number of tasks and last task index, from the core's range, the batch limit and the
  number of batches already submitted on this core.\<close>

definition commit_window :: "int \<Rightarrow> int \<Rightarrow> int \<Rightarrow> int \<Rightarrow> int \<times> int \<times> int" where
  "commit_window task_start0 task_number0 submit_index max_submit =
     (let ts = wrap32 (task_start0 + wrap32 (submit_index * max_submit));
          tn = wrap32 (task_number0 - wrap32 (submit_index * max_submit));
          tn' = (if tn > max_submit then max_submit else tn);
          task_end = wrap32 (wrap32 (ts + tn') - 1)
      in (ts, tn', task_end))"

definition rknpu_job_subcore_commit_pc :: "rknpu_device \<Rightarrow> nat \<Rightarrow> nat \<Rightarrow> rknpu_device" where
  "rknpu_job_subcore_commit_pc d j core_index =
     (case jobs d j of
        None \<Rightarrow> d
      | Some J \<Rightarrow>
          let a = args J; cfg = config d in
          if task_obj_addr a = 0 then upd_job j (\<lambda>J. J\<lparr>ret := - EINVAL\<rparr>) d
          else
            let task_base = task_mem d (task_obj_addr a);
                task_pp_en = (if flags a AND RKNPU_JOB_PINGPONG \<noteq> 0 then 1 else 0 :: u32);
                sel = (if num_irqs cfg > 1 \<and> int core_index < num_irqs cfg
                       then [RegWrite core_index 0x1004 (0xe + 0x10000000 * of_nat core_index),
                             RegWrite core_index 0x3004 (0xe + 0x10000000 * of_nat core_index)]
                       else []);
                (ts0, tn0) = subcore_range cfg J core_index;
                (ts, tn, task_end) =
                   commit_window ts0 tn0 (submit_count J core_index) (max_submit_int cfg);
                first = task_base ts;
                last = task_base task_end;
                data_amount =
                   (regcfg_amount first + RKNPU_PC_DATA_EXTRA_AMOUNT + pc_data_amount_scale cfg - 1)
                     div pc_data_amount_scale cfg - 1;
                task_ctrl = push_bit (unat (pc_task_number_bits cfg)) (0x6 OR task_pp_en)
                              OR word_of_int tn
            in emit [RegWrite core_index RKNPU_OFFSET_INT_CLEAR RKNPU_INT_CLEAR,
                     RegWrite core_index RKNPU_OFFSET_PC_OP_EN 1,
                     RegWrite core_index RKNPU_OFFSET_PC_OP_EN 0]
                 (upd_job j (\<lambda>J. J\<lparr>first_task := Some ts, last_task := Some task_end,
                                     int_mask := (int_mask J)(core_index := task_int_mask last)\<rparr>)
                   (emit (sel @
                      [RegWrite core_index RKNPU_OFFSET_PC_DATA_ADDR (ucast (regcmd_addr first)),
                       RegWrite core_index RKNPU_OFFSET_PC_DATA_AMOUNT data_amount,
                       RegWrite core_index RKNPU_OFFSET_INT_MASK (task_int_mask last),
                       RegWrite core_index RKNPU_OFFSET_INT_CLEAR (task_int_mask first),
                       RegWrite core_index RKNPU_OFFSET_PC_TASK_CONTROL task_ctrl,
                       RegWrite core_index RKNPU_OFFSET_PC_DMA_BASE_ADDR (ucast (task_base_addr a))])
                     d)))"

definition rknpu_job_subcore_commit :: "rknpu_device \<Rightarrow> nat \<Rightarrow> nat \<Rightarrow> rknpu_device" where
  "rknpu_job_subcore_commit d j core_index =
     (case jobs d j of
        None \<Rightarrow> d
      | Some J \<Rightarrow>
          let d1 = emit [RegWrite core_index RKNPU_OFFSET_PC_DATA_ADDR 0x1] d in
          if flags (args J) AND RKNPU_JOB_PC = 0
          then upd_job j (\<lambda>J. J\<lparr>ret := - EINVAL\<rparr>) d1
          else rknpu_job_subcore_commit_pc d1 j core_index)"

definition rknpu_job_commit :: "rknpu_device \<Rightarrow> nat \<Rightarrow> rknpu_device" where
  "rknpu_job_commit d j =
     (case jobs d j of
        None \<Rightarrow> d
      | Some J \<Rightarrow>
          let m = core_mask (args J) in
          if m = RKNPU_CORE0_MASK then rknpu_job_subcore_commit d j 0
          else if m = RKNPU_CORE1_MASK then rknpu_job_subcore_commit d j 1
          else if m = RKNPU_CORE2_MASK then rknpu_job_subcore_commit d j 2
          else if m = RKNPU_CORE0_MASK OR RKNPU_CORE1_MASK
            then rknpu_job_subcore_commit (rknpu_job_subcore_commit d j 0) j 1
          else if m = RKNPU_CORE0_MASK OR RKNPU_CORE1_MASK OR RKNPU_CORE2_MASK
            then rknpu_job_subcore_commit
                   (rknpu_job_subcore_commit (rknpu_job_subcore_commit d j 0) j 1) j 2
          else d)"

definition rknpu_job_next :: "rknpu_device \<Rightarrow> nat \<Rightarrow> rknpu_device" where
  "rknpu_job_next d core_index =
     (if soft_reseting d then d
      else
        case (job (subcore_datas d core_index), todo_list (subcore_datas d core_index)) of
          (None, j # rest) \<Rightarrow>
            (let d1 = upd_subcore core_index (\<lambda>s. s\<lparr>todo_list := rest, job := Some j\<rparr>) d in
             case jobs d1 j of
               None \<Rightarrow> d1
             | Some J \<Rightarrow>
                 let (z, rc) = atomic_dec_and_test (run_count J);
                     d2 = upd_job j (\<lambda>J. J\<lparr>run_count := rc\<rparr>) d1
                 in if z then rknpu_job_commit d2 j else d2)
        | _ \<Rightarrow> d)"

text \<open>The number of commit rounds a core needs for a job, as \<^verbatim>\<open>rknpu_job_done\<close>
  computes it.\<close>

definition batch_rounds :: "rknpu_config \<Rightarrow> rknpu_job \<Rightarrow> nat \<Rightarrow> int" where
  "batch_rounds cfg J core_index =
     c_div (wrap32 (wrap32 (rknpu_get_task_number cfg J core_index + max_submit_int cfg) - 1))
           (max_submit_int cfg)"

definition rknpu_job_done :: "rknpu_device \<Rightarrow> nat \<Rightarrow> int \<Rightarrow> nat \<Rightarrow> rknpu_device" where
  "rknpu_job_done d j r core_index =
     (case jobs d j of
        None \<Rightarrow> d
      | Some J \<Rightarrow>
          let (sc, sc') = atomic_inc_return (submit_count J core_index);
              d1 = upd_job j (\<lambda>J. J\<lparr>submit_count := (submit_count J)(core_index := sc')\<rparr>) d
          in if sc < batch_rounds (config d) J core_index
             then rknpu_job_subcore_commit d1 j core_index
             else
               let d2 = upd_subcore core_index
                          (\<lambda>s. s\<lparr>job := None,
                                  task_num := wrap64 (task_num s
                                     - rknpu_get_task_number (config d) J core_index)\<rparr>) d1;
                   (z, ic) = atomic_dec_and_test (interrupt_count J);
                   d3 = upd_job j (\<lambda>J. J\<lparr>interrupt_count := ic\<rparr>) d2;
                   d4 = (if z then
                           emit ((if (job_flags J OR RKNPU_JOB_DONE) AND RKNPU_JOB_ASYNC \<noteq> 0
                                  then [ScheduleWork j] else [])
                                 @ [if use_core_num J > 1 then WakeUp 0 else WakeUp core_index])
                             (upd_job j (\<lambda>J. J\<lparr>job_flags := job_flags J OR RKNPU_JOB_DONE,
                                                 ret := r\<rparr>) d3)
                         else d3)
               in rknpu_job_next d4 core_index)"

text \<open>The local \<^verbatim>\<open>int task_num\<close> of \<^verbatim>\<open>rknpu_schedule_core_index\<close> holds the 64-bit
  pending count narrowed to 32 bits; the comparison is made in 64 bits.\<close>

definition rknpu_schedule_core_index :: "rknpu_device \<Rightarrow> nat" where
  "rknpu_schedule_core_index d =
     fst (fold (\<lambda>i (core_index, tn).
                  if tn > task_num (subcore_datas d i)
                  then (i, wrap32 (task_num (subcore_datas d i)))
                  else (core_index, tn))
               [1 ..< nat (num_irqs (config d))]
               (0, wrap32 (task_num (subcore_datas d 0))))"

definition job_core_mask :: "rknpu_device \<Rightarrow> nat \<Rightarrow> u32" where
  "job_core_mask d j = (case jobs d j of None \<Rightarrow> 0 | Some J \<Rightarrow> core_mask (args J))"

text \<open>\<^verbatim>\<open>rknpu_job_schedule\<close> in its two parts. The first resolves the automatic mask
  and, under the lock, appends the job to the queue of every core of its mask; the second
  is the loop after the unlock that calls \<^verbatim>\<open>rknpu_job_next\<close> for every core of the mask.\<close>

definition schedule_enqueue :: "rknpu_device \<Rightarrow> nat \<Rightarrow> rknpu_device" where
  "schedule_enqueue d j =
     (let d1 = (if job_core_mask d j = RKNPU_CORE_AUTO_MASK
                then upd_job j (\<lambda>J. J\<lparr>args := (args J)\<lparr>core_mask :=
                                           rknpu_core_mask (rknpu_schedule_core_index d)\<rparr>,
                                        use_core_num := 1, run_count := 1,
                                        interrupt_count := 1\<rparr>) d
                else d)
      in fold (\<lambda>i d. if job_core_mask d j AND rknpu_core_mask i \<noteq> 0
                      then (case jobs d j of
                              None \<Rightarrow> d
                            | Some J \<Rightarrow>
                                upd_subcore i
                                  (\<lambda>s. s\<lparr>todo_list := todo_list s @ [j],
                                          task_num := wrap64 (task_num s
                                            + rknpu_get_task_number (config d) J i)\<rparr>) d)
                      else d)
              [0 ..< nat (num_irqs (config d))] d1)"

definition rknpu_job_schedule :: "rknpu_device \<Rightarrow> nat \<Rightarrow> rknpu_device" where
  "rknpu_job_schedule d j =
     fold (\<lambda>i d. if job_core_mask d j AND rknpu_core_mask i \<noteq> 0
                  then rknpu_job_next d i else d)
          [0 ..< nat (num_irqs (config d))] (schedule_enqueue d j)"

text \<open>\<^verbatim>\<open>rknpu_soft_reset\<close> is declared in \<^verbatim>\<open>rknpu_reset.h\<close>, outside the sources: the
  call is an event.\<close>

definition rknpu_job_abort :: "rknpu_device \<Rightarrow> nat \<Rightarrow> rknpu_device" where
  "rknpu_job_abort d j =
     (case jobs d j of
        None \<Rightarrow> d
      | Some J \<Rightarrow>
          let d1 = fold (\<lambda>i d. if core_mask (args J) AND rknpu_core_mask i \<noteq> 0
                                   \<and> job (subcore_datas d i) = Some j \<and> \<not> irq_entry J i
                                then upd_subcore i
                                       (\<lambda>s. s\<lparr>job := None,
                                               task_num := wrap64 (task_num s
                                                 - rknpu_get_task_number (config d) J i)\<rparr>) d
                                else d)
                        [0 ..< nat (num_irqs (config d))] d;
              d2 = (if ret J = - ETIMEDOUT then emit [SoftReset] d1 else d1)
          in rknpu_job_cleanup d2 j)"

definition rknpu_fuzz_status :: "u32 \<Rightarrow> u32" where
  "rknpu_fuzz_status status =
     (if status AND 0x3 \<noteq> 0 then 0x3 else 0)
     OR (if status AND 0xc \<noteq> 0 then 0xc else 0)
     OR (if status AND 0x30 \<noteq> 0 then 0x30 else 0)
     OR (if status AND 0xc0 \<noteq> 0 then 0xc0 else 0)
     OR (if status AND 0x300 \<noteq> 0 then 0x300 else 0)
     OR (if status AND 0xc00 \<noteq> 0 then 0xc00 else 0)"

text \<open>\<^verbatim>\<open>rknpu_irq_handler\<close>, given the \<^verbatim>\<open>INT_STATUS\<close> value it reads; the raw status and
  the task counter are only logged. It returns \<^verbatim>\<open>IRQ_HANDLED\<close> on every path.\<close>

definition rknpu_irq_handler :: "rknpu_device \<Rightarrow> nat \<Rightarrow> u32 \<Rightarrow> rknpu_device" where
  "rknpu_irq_handler d core_index status =
     (case job (subcore_datas d core_index) of
        None \<Rightarrow>
          rknpu_job_next
            (emit [RegWrite core_index RKNPU_OFFSET_INT_CLEAR RKNPU_INT_CLEAR] d) core_index
      | Some j \<Rightarrow>
          (case jobs d j of
             None \<Rightarrow> d
           | Some J \<Rightarrow>
               let d1 = upd_job j (\<lambda>J. J\<lparr>irq_entry := (irq_entry J)(core_index := True),
                                          int_status := (int_status J)(core_index := status)\<rparr>) d;
                   d2 = emit [RegWrite core_index RKNPU_OFFSET_INT_CLEAR RKNPU_INT_CLEAR] d1
               in if rknpu_fuzz_status status \<noteq> int_mask J core_index then d2
                  else rknpu_job_done d2 j 0 core_index))"

text \<open>The condition \<^verbatim>\<open>rknpu_job_wait\<close> sleeps on.\<close>

definition wait_condition :: "rknpu_device \<Rightarrow> nat \<Rightarrow> bool" where
  "wait_condition d j =
     ((case jobs d j of None \<Rightarrow> False | Some J \<Rightarrow> job_flags J AND RKNPU_JOB_DONE \<noteq> 0)
      \<or> soft_reseting d)"

text \<open>The \<^verbatim>\<open>do ... while\<close> loop of \<^verbatim>\<open>rknpu_job_wait\<close>, from the round \<open>wait_count\<close> on.
  The time-out is read from the job's arguments in every round. When the caller sleeps in
  \<^verbatim>\<open>wait_event_timeout\<close> the interrupt handlers of that round run. The \<^verbatim>\<open>long\<close> the
  call returns is stored in \<^verbatim>\<open>int ret\<close>, which keeps its low 32 bits: a time-out of
  \<^verbatim>\<open>MAX_JIFFY_OFFSET\<close> jiffies that is returned whole becomes -2.\<close>

function wait_loop ::
  "submit_env \<Rightarrow> nat \<Rightarrow> nat \<Rightarrow> rknpu_device \<Rightarrow> int \<times> rknpu_device" where
  "wait_loop env j wait_count d =
     (let timeout_jiffies =
            msecs_to_jiffies env (case jobs d j of None \<Rightarrow> 0 | Some J \<Rightarrow> timeout (args J));
          d1 = (if wait_condition d j then d
                else fold (\<lambda>(c, status) d. rknpu_irq_handler d c status)
                       (irqs (rounds env wait_count)) d);
          r = wrap32 (wait_event_timeout (wait_condition d j) (wait_condition d1 j)
                        timeout_jiffies (jiffies_left (rounds env wait_count)))
      in if wait_count + 1 \<ge> 3 then (r, d1)
         else if r = 0 \<and> continue_wait (rounds env wait_count)
           then wait_loop env j (wait_count + 1) d1
         else (r, d1))"
  by pat_completeness auto
termination
  by (relation "measure (\<lambda>(env, j, wait_count, d). 3 - wait_count)") auto

declare wait_loop.simps [simp del]

text \<open>\<^verbatim>\<open>rknpu_job_wait\<close>: the value returned and the device afterwards. The job's
  \<open>args\<close> are the caller's own structure for a blocking submission, so the task counter
  is written there.\<close>

definition rknpu_job_wait :: "rknpu_device \<Rightarrow> nat \<Rightarrow> submit_env \<Rightarrow> int \<times> rknpu_device" where
  "rknpu_job_wait d j env =
     (case jobs d j of
        None \<Rightarrow> (- EINVAL, d)
      | Some J0 \<Rightarrow>
          let core_index = rknpu_wait_core_index (core_mask (args J0));
              (r, d1) = wait_loop env j 0 d
          in (case jobs d1 j of
               None \<Rightarrow> (- EINVAL, d1)
             | Some J \<Rightarrow>
                 (case last_task J of
                    None \<Rightarrow>
                      (if r < 0 then r else - EINVAL,
                       fold (\<lambda>i d. upd_subcore i (\<lambda>s. s\<lparr>todo_list := remove1 j (todo_list s)\<rparr>) d)
                            [0 ..< nat (use_core_num J)] d1)
                  | Some lt \<Rightarrow>
                      let obj = task_obj_addr (args J);
                          tasks = task_mem d1 obj;
                          t = (tasks lt)\<lparr>task_int_status := int_status J core_index\<rparr>;
                          d2 = d1\<lparr>task_mem := (task_mem d1)(obj := tasks(lt := t))\<rparr>
                      in if r \<le> 0 then
                           (if r < 0 then r else - ETIMEDOUT,
                            upd_job j (\<lambda>J. J\<lparr>args := (args J)\<lparr>task_counter :=
                                (if flags (args J) AND RKNPU_JOB_PC \<noteq> 0
                                 then pc_task_status env AND pc_task_number_mask (config d)
                                 else 0)\<rparr>\<rparr>) d2)
                         else if job_flags J AND RKNPU_JOB_DONE = 0 then (- EINVAL, d2)
                         else (0, upd_job j (\<lambda>J. J\<lparr>args := (args J)\<lparr>task_counter :=
                                         task_number (args J)\<rparr>\<rparr>) d2))))"

text \<open>\<^verbatim>\<open>rknpu_submit\<close>: the value returned, the caller's argument structure afterwards
  and the device afterwards.\<close>

definition rknpu_submit ::
  "rknpu_device \<Rightarrow> rknpu_submit \<Rightarrow> submit_env \<Rightarrow> int \<times> rknpu_submit \<times> rknpu_device" where
  "rknpu_submit d a env =
     (if task_number a = 0 then (- EINVAL, a, d)
      else if core_mask a > cfg_core_mask (config d) then (- EINVAL, a, d)
      else
        case rknpu_job_alloc d a env of
          None \<Rightarrow> (- ENOMEM, a, d)
        | Some (j, d1) \<Rightarrow>
            if flags a AND RKNPU_JOB_NONBLOCK \<noteq> 0 then
              (let d2 = upd_job j (\<lambda>J. J\<lparr>job_flags := job_flags J OR RKNPU_JOB_ASYNC\<rparr>) d1;
                   d3 = rknpu_job_schedule d2 j;
                   r = (case jobs d3 j of None \<Rightarrow> 0 | Some J \<Rightarrow> ret J)
               in if r \<noteq> 0 then (r, a, rknpu_job_abort d3 j) else (r, a, d3))
            else
              (let d2 = rknpu_job_schedule d1 j;
                   d3 = (if flags a AND RKNPU_JOB_PC \<noteq> 0
                         then (let (r, d') = rknpu_job_wait d2 j env
                               in upd_job j (\<lambda>J. J\<lparr>ret := r\<rparr>) d')
                         else d2);
                   a' = (case jobs d3 j of None \<Rightarrow> a | Some J \<Rightarrow> args J);
                   r = (case jobs d3 j of None \<Rightarrow> 0 | Some J \<Rightarrow> ret J)
               in if r = 0 then (r, a', rknpu_job_cleanup d3 j)
                  else (r, a', rknpu_job_abort d3 j)))"

section \<open>The power controller (\<^verbatim>\<open>rknpu_drv.c\<close>)\<close>

datatype power_event = PowerOn | PowerOff | QueueDelayedWork

text \<open>The power fields of \<^verbatim>\<open>struct rknpu_device\<close>, with the trace of what the power
  functions did to the hardware and to the work queue.\<close>

record rknpu_power =
  power_refcount :: int
  power_put_delay :: nat
  power_trace :: "power_event list"

text \<open>\<^verbatim>\<open>rknpu_power_on\<close> enables clocks and power domains and can fail; its return value
  is the environment's. \<^verbatim>\<open>rknpu_power_off\<close> returns 0 on its only path.\<close>

definition rknpu_power_on :: "int \<Rightarrow> rknpu_power \<Rightarrow> int \<times> rknpu_power" where
  "rknpu_power_on on_ret p = (on_ret, p\<lparr>power_trace := power_trace p @ [PowerOn]\<rparr>)"

definition rknpu_power_off :: "rknpu_power \<Rightarrow> int \<times> rknpu_power" where
  "rknpu_power_off p = (0, p\<lparr>power_trace := power_trace p @ [PowerOff]\<rparr>)"

definition rknpu_power_get :: "int \<Rightarrow> rknpu_power \<Rightarrow> int \<times> rknpu_power" where
  "rknpu_power_get on_ret p =
     (let (v, c) = atomic_inc_return (power_refcount p);
          p1 = p\<lparr>power_refcount := c\<rparr>
      in if v = 1 then rknpu_power_on on_ret p1 else (0, p1))"

text \<open>The locked section shared by \<^verbatim>\<open>rknpu_power_put\<close> and
  \<^verbatim>\<open>rknpu_power_off_delay_work\<close>.\<close>

definition power_put_locked :: "rknpu_power \<Rightarrow> int \<times> rknpu_power" where
  "power_put_locked p =
     (let (dec, c) = atomic_dec_if_positive (power_refcount p);
          p1 = p\<lparr>power_refcount := c\<rparr>
      in if dec = 0 then
           (let (r, p2) = rknpu_power_off p1
            in if r \<noteq> 0
               then (r, p2\<lparr>power_refcount := snd (atomic_inc_return (power_refcount p2))\<rparr>)
               else (r, p2))
         else (0, p1))"

text \<open>\<^verbatim>\<open>rknpu_power_put\<close> and \<^verbatim>\<open>rknpu_power_put_delay\<close> call each other: the first
  when the power-off failed, the second when no delay is configured.\<close>

function rknpu_power_put :: "rknpu_power \<Rightarrow> int \<times> rknpu_power"
  and rknpu_power_put_delay :: "rknpu_power \<Rightarrow> int \<times> rknpu_power" where
  "rknpu_power_put p =
     (if fst (power_put_locked p) \<noteq> 0
      then (fst (power_put_locked p), snd (rknpu_power_put_delay (snd (power_put_locked p))))
      else power_put_locked p)"
| "rknpu_power_put_delay p =
     (if power_put_delay p = 0 then rknpu_power_put p
      else if power_refcount p = 1
        then (0, p\<lparr>power_trace := power_trace p @ [QueueDelayedWork]\<rparr>)
      else (0, p\<lparr>power_refcount := snd (atomic_dec_if_positive (power_refcount p))\<rparr>))"
  by pat_completeness auto
termination
proof (relation "measure (\<lambda>x. case x of Inl _ \<Rightarrow> 0 | Inr _ \<Rightarrow> Suc 0)")
  show "wf (measure (\<lambda>x. case x of Inl _ \<Rightarrow> 0 | Inr _ \<Rightarrow> Suc 0))"
    by simp
next
  fix p
  assume "fst (power_put_locked p) \<noteq> 0"
  moreover have "fst (power_put_locked p) = 0"
    by (simp add: power_put_locked_def rknpu_power_off_def Let_def split: prod.split)
  ultimately show "(Inr (snd (power_put_locked p)), Inl p)
      \<in> measure (\<lambda>x. case x of Inl _ \<Rightarrow> 0 | Inr _ \<Rightarrow> Suc 0)"
    by simp
next
  fix p :: rknpu_power
  assume "power_put_delay p = 0"
  then show "(Inl p, Inr p) \<in> measure (\<lambda>x. case x of Inl _ \<Rightarrow> 0 | Inr _ \<Rightarrow> Suc 0)"
    by simp
qed

declare rknpu_power_put.simps [simp del] rknpu_power_put_delay.simps [simp del]

text \<open>\<^verbatim>\<open>rknpu_power_off_delay_work\<close>, the queued work when its delay has run out.\<close>

definition rknpu_power_off_delay_work :: "rknpu_power \<Rightarrow> rknpu_power" where
  "rknpu_power_off_delay_work p =
     (if fst (power_put_locked p) \<noteq> 0
      then snd (rknpu_power_put_delay (snd (power_put_locked p)))
      else snd (power_put_locked p))"

text \<open>The operations on the power controller: acquire (with the result of the power-on
  it may run), release, deferred release, and the delayed work running.\<close>

datatype power_op = Acquire int | Release | ReleaseDeferred | DelayWork

fun power_step :: "power_op \<Rightarrow> rknpu_power \<Rightarrow> rknpu_power" where
  "power_step (Acquire on_ret) p = snd (rknpu_power_get on_ret p)"
| "power_step Release p = snd (rknpu_power_put p)"
| "power_step ReleaseDeferred p = snd (rknpu_power_put_delay p)"
| "power_step DelayWork p = rknpu_power_off_delay_work p"

definition power_run :: "power_op list \<Rightarrow> rknpu_power \<Rightarrow> rknpu_power" where
  "power_run ops p = fold power_step ops p"

fun is_acquire :: "power_op \<Rightarrow> bool" where
  "is_acquire (Acquire _) = True"
| "is_acquire _ = False"

text \<open>What one operation appends to the trace.\<close>

definition new_power_events :: "power_op \<Rightarrow> rknpu_power \<Rightarrow> power_event list" where
  "new_power_events x p = drop (length (power_trace p)) (power_trace (power_step x p))"

text \<open>The power fields as \<^verbatim>\<open>rknpu_probe\<close> leaves them.\<close>

definition power_initial :: rknpu_power where
  "power_initial = \<lparr>power_refcount = 0, power_put_delay = 3000, power_trace = []\<rparr>"

section \<open>Sample states\<close>

text \<open>An idle RK3588 device, a blocking single-core submission of ten tasks for core 0,
  an environment in which every allocation succeeds and no interrupt arrives, and the
  device after that submission has been allocated and scheduled.\<close>

definition sample_task :: rknpu_task where
  "sample_task = \<lparr>task_flags = 0, op_idx = 0, enable_mask = 0xd, task_int_mask = 0x300,
     int_clear = 0x1ffff, task_int_status = 0, regcfg_amount = 100, regcfg_offset = 0,
     regcmd_addr = 0x1000\<rparr>"

definition idle_device :: rknpu_device where
  "idle_device = \<lparr>subcore_datas = (\<lambda>_. \<lparr>todo_list = [], job = None, task_num = 0\<rparr>),
     config = rk3588_rknpu_config, soft_reseting = False, jobs = (\<lambda>_. None), next_job = 0,
     events = [], task_mem = (\<lambda>_ _. sample_task)\<rparr>"

definition sample_submit :: rknpu_submit where
  "sample_submit = \<lparr>flags = RKNPU_JOB_PC, timeout = 1000, task_start = 0, task_number = 10,
     task_counter = 0, task_obj_addr = 0x8000, task_base_addr = 0, core_mask = 1,
     subcore_task = (\<lambda>i. if i = 0 then \<lparr>sub_task_start = 0, sub_task_number = 10\<rparr>
                         else \<lparr>sub_task_start = 0, sub_task_number = 0\<rparr>)\<rparr>"

definition quiet_env :: submit_env where
  "quiet_env = \<lparr>job_kzalloc_ok = True, args_kzalloc_ok = True,
     rounds = (\<lambda>_. \<lparr>irqs = [], jiffies_left = 0, continue_wait = True\<rparr>),
     ticks = (\<lambda>m. (uint m * 300 + 999) div 1000), pc_task_status = 0\<rparr>"

definition running_device :: rknpu_device where
  "running_device =
     (case rknpu_job_alloc idle_device sample_submit quiet_env of
        None \<Rightarrow> idle_device
      | Some (j, d) \<Rightarrow> rknpu_job_schedule d j)"

section \<open>Predicates on device states\<close>


text \<open>The job carries one of the two core masks that pair core 2 with one other core,
  no commit has set its task pointers, and it is not done.\<close>

definition uncommitted :: "rknpu_device \<Rightarrow> nat \<Rightarrow> bool" where
  "uncommitted d j =
     (case jobs d j of
        None \<Rightarrow> False
      | Some J \<Rightarrow> last_task J = None \<and> job_flags J AND RKNPU_JOB_DONE = 0
                  \<and> (core_mask (args J) = 0x5 \<or> core_mask (args J) = 0x6))"



section \<open>Multi-core jobs on their way to the commit\<close>






text \<open>A trace contains the start pulse (the write of 1 to \<^verbatim>\<open>PC_OP_EN\<close>) of a core.\<close>

definition started :: "event list \<Rightarrow> nat \<Rightarrow> bool" where
  "started es c = (RegWrite c RKNPU_OFFSET_PC_OP_EN 1 \<in> set es)"

text \<open>The sample submission for cores 0 and 1, the idle device after that submission
  has been allocated and enqueued, and the idle device after the submission with the
  mask 0x5 has been allocated and scheduled.\<close>

definition sample_submit_3 :: rknpu_submit where
  "sample_submit_3 = sample_submit\<lparr>core_mask := 0x3,
     subcore_task := (\<lambda>i. \<lparr>sub_task_start = 0, sub_task_number = 5\<rparr>)\<rparr>"





subsection \<open>Batched rounds: observations on the register trace\<close>

text \<open>
  What reaches hardware is read off the trace: \<open>task_ctrl_writes c\<close> lists the values
  written to the task control register of core \<open>c\<close>, and \<open>task_ctrl\<close> is the value
  \<^verbatim>\<open>((0x6 | pp_en) << pc_task_number_bits) | task_number\<close> that
  \<^verbatim>\<open>rknpu_job_subcore_commit_pc\<close> puts there. \<open>completions n\<close> is \<open>n\<close> successive calls
  of \<^verbatim>\<open>rknpu_job_done\<close> for the same job and core.
\<close>

fun task_ctrl_writes :: "nat \<Rightarrow> event list \<Rightarrow> u32 list" where
  "task_ctrl_writes c [] = []"
| "task_ctrl_writes c (RegWrite c' off v # es) =
     (if c' = c \<and> off = RKNPU_OFFSET_PC_TASK_CONTROL then v # task_ctrl_writes c es
      else task_ctrl_writes c es)"
| "task_ctrl_writes c (_ # es) = task_ctrl_writes c es"

definition task_ctrl :: "rknpu_config \<Rightarrow> rknpu_submit \<Rightarrow> int \<Rightarrow> u32" where
  "task_ctrl cfg a n =
     push_bit (unat (pc_task_number_bits cfg))
       (0x6 OR (if flags a AND RKNPU_JOB_PINGPONG \<noteq> 0 then 1 else 0))
     OR word_of_int n"

definition small_batch_device :: rknpu_device where
  "small_batch_device = idle_device\<lparr>config := rk3588_rknpu_config\<lparr>max_submit_number := 4\<rparr>\<rparr>"

definition irq_env :: "(nat \<times> u32) list \<Rightarrow> submit_env" where
  "irq_env xs = quiet_env\<lparr>rounds :=
     (\<lambda>n. if n = 0 then \<lparr>irqs = xs, jiffies_left = 100, continue_wait = True\<rparr>
          else \<lparr>irqs = [], jiffies_left = 0, continue_wait = True\<rparr>)\<rparr>"

definition running_small :: rknpu_device where
  "running_small =
     (case rknpu_job_alloc small_batch_device sample_submit quiet_env of
        None \<Rightarrow> small_batch_device
      | Some (j, d) \<Rightarrow> rknpu_job_schedule d j)"

definition submit_summary ::
  "int \<times> rknpu_submit \<times> rknpu_device \<Rightarrow> int \<times> u32 \<times> u32 list \<times> nat" where
  "submit_summary x =
     (fst x, task_counter (fst (snd x)),
      map (\<lambda>v. v AND 0xfff) (task_ctrl_writes 0 (events (snd (snd x)))),
      length (filter (\<lambda>e. e = RegWrite 0 RKNPU_OFFSET_PC_OP_EN 1) (events (snd (snd x)))))"


primrec completions :: "nat \<Rightarrow> rknpu_device \<Rightarrow> nat \<Rightarrow> nat \<Rightarrow> rknpu_device" where
  "completions 0 d j c = d"
| "completions (Suc n) d j c = rknpu_job_done (completions n d j c) j 0 c"

definition batch_len :: "int \<Rightarrow> int \<Rightarrow> int \<Rightarrow> int" where
  "batch_len T M k = min M (T - k * M)"

subsection \<open>Completions: observations\<close>

text \<open>
  \<open>wake_ups\<close> lists the wait queues woken in a trace, in order. \<open>final_batch d j c\<close> is the
  negation of the test at the head of \<^verbatim>\<open>rknpu_job_done\<close>: the incremented submit count of
  core \<open>c\<close> is not below the number of rounds, so that this completion is the core's last.
  \<open>completions_of d j xs\<close> runs \<^verbatim>\<open>rknpu_job_done\<close> for job \<open>j\<close> once for every pair of a
  result and a core in \<open>xs\<close>. \<open>running_3\<close> is the idle device after a two-core job with mask
  0x3 has been allocated and scheduled.
\<close>

fun wake_ups :: "event list \<Rightarrow> nat list" where
  "wake_ups [] = []"
| "wake_ups (WakeUp q # es) = q # wake_ups es"
| "wake_ups (_ # es) = wake_ups es"

definition final_batch :: "rknpu_device \<Rightarrow> nat \<Rightarrow> nat \<Rightarrow> bool" where
  "final_batch d j c =
     (case jobs d j of
        None \<Rightarrow> False
      | Some J \<Rightarrow> \<not> fst (atomic_inc_return (submit_count J c)) < batch_rounds (config d) J c)"

primrec completions_of :: "rknpu_device \<Rightarrow> nat \<Rightarrow> (int \<times> nat) list \<Rightarrow> rknpu_device" where
  "completions_of d j [] = d"
| "completions_of d j (x # xs) = completions_of (rknpu_job_done d j (fst x) (snd x)) j xs"

definition running_3 :: rknpu_device where
  "running_3 =
     (case rknpu_job_alloc idle_device sample_submit_3 quiet_env of
        None \<Rightarrow> idle_device
      | Some (j, d) \<Rightarrow> rknpu_job_schedule d j)"

section \<open>Integer ranges\<close>

lemma wrap32_id: "- 2147483648 \<le> x \<Longrightarrow> x < 2147483648 \<Longrightarrow> wrap32 x = x"
  by (simp add: wrap32_def)

lemma wrap64_id:
  "- 9223372036854775808 \<le> x \<Longrightarrow> x < 9223372036854775808 \<Longrightarrow> wrap64 x = x"
  by (simp add: wrap64_def)

section \<open>The power reference count\<close>

lemma power_put_locked_ret: "fst (power_put_locked p) = 0"
  by (simp add: power_put_locked_def rknpu_power_off_def Let_def split: prod.split)

lemma rknpu_power_put_eq: "rknpu_power_put p = power_put_locked p"
  by (simp add: rknpu_power_put.simps power_put_locked_ret)

lemma rknpu_power_off_delay_work_eq: "rknpu_power_off_delay_work p = snd (power_put_locked p)"
  by (simp add: rknpu_power_off_delay_work_def power_put_locked_ret)

lemma power_put_locked_count:
  "0 \<le> power_refcount p \<Longrightarrow> power_refcount p < 2147483648 \<Longrightarrow>
   power_refcount (snd (power_put_locked p))
     = (if power_refcount p = 0 then 0 else power_refcount p - 1)"
  by (simp add: power_put_locked_def rknpu_power_off_def atomic_dec_if_positive_def Let_def
      wrap32_id split: prod.split)

lemma power_put_locked_zero: "power_refcount p = 0 \<Longrightarrow> power_put_locked p = (0, p)"
  by (simp add: power_put_locked_def atomic_dec_if_positive_def Let_def wrap32_def)

lemma power_step_count:
  assumes "0 \<le> power_refcount p" and "power_refcount p < 2147483648"
  shows "is_acquire x \<Longrightarrow> power_refcount p < 2147483647 \<Longrightarrow>
         power_refcount (power_step x p) = power_refcount p + 1"
    and "\<not> is_acquire x \<Longrightarrow> 0 \<le> power_refcount (power_step x p)"
    and "\<not> is_acquire x \<Longrightarrow> power_refcount (power_step x p) \<le> power_refcount p"
proof -
  have put: "0 \<le> power_refcount (snd (power_put_locked p))"
    "power_refcount (snd (power_put_locked p)) \<le> power_refcount p"
    using assms by (simp_all add: power_put_locked_count)
  have dec: "0 \<le> snd (atomic_dec_if_positive (power_refcount p))"
    "snd (atomic_dec_if_positive (power_refcount p)) \<le> power_refcount p"
    using assms by (simp_all add: atomic_dec_if_positive_def Let_def wrap32_id)
  show "is_acquire x \<Longrightarrow> power_refcount p < 2147483647 \<Longrightarrow>
        power_refcount (power_step x p) = power_refcount p + 1"
    using assms
    by (cases x)
       (simp_all add: rknpu_power_get_def rknpu_power_on_def atomic_inc_return_def wrap32_id
          Let_def)
  show "\<not> is_acquire x \<Longrightarrow> 0 \<le> power_refcount (power_step x p)"
    using put dec
    by (cases x)
       (simp_all add: rknpu_power_put_eq rknpu_power_off_delay_work_eq
          rknpu_power_put_delay.simps)
  show "\<not> is_acquire x \<Longrightarrow> power_refcount (power_step x p) \<le> power_refcount p"
    using put dec
    by (cases x)
       (simp_all add: rknpu_power_put_eq rknpu_power_off_delay_work_eq
          rknpu_power_put_delay.simps)
qed

lemma power_run_nonneg:
  "0 \<le> power_refcount p \<Longrightarrow>
   power_refcount p + int (length (filter is_acquire ops)) < 2147483648 \<Longrightarrow>
   0 \<le> power_refcount (power_run ops p)"
proof (induction ops arbitrary: p)
  case Nil
  then show ?case by (simp add: power_run_def)
next
  case (Cons x xs)
  have r: "power_refcount p < 2147483648" using Cons.prems by simp
  have "0 \<le> power_refcount (power_step x p)
        \<and> power_refcount (power_step x p) + int (length (filter is_acquire xs)) < 2147483648"
  proof (cases "is_acquire x")
    case True
    then have "power_refcount p < 2147483647" using Cons.prems by simp
    with power_step_count(1) [OF Cons.prems(1) r True] True Cons.prems show ?thesis by simp
  next
    case False
    with power_step_count(2,3) [OF Cons.prems(1) r False] Cons.prems show ?thesis by simp
  qed
  then have "0 \<le> power_refcount (power_run xs (power_step x p))"
    using Cons.IH by blast
  then show ?case by (simp add: power_run_def)
qed

lemma dec_is_zero:
  assumes "- 2147483648 \<le> c" and "c < 2147483648"
  shows "(wrap32 (c - 1) = 0) = (c = 1)"
proof (cases "c = - 2147483648")
  case True
  then show ?thesis by (simp add: wrap32_def)
next
  case False
  with assms have "wrap32 (c - 1) = c - 1" by (simp add: wrap32_id)
  then show ?thesis by auto
qed

lemma power_off_only_at_last_reference:
  assumes "- 2147483648 \<le> power_refcount p" and "power_refcount p < 2147483648"
  shows "(PowerOff \<in> set (new_power_events x p))
         = (\<not> is_acquire x \<and> power_refcount p = 1 \<and> power_refcount (power_step x p) = 0)"
proof -
  have put: "PowerOff \<in> set (drop (length (power_trace p)) (power_trace (snd (power_put_locked p))))
             = (power_refcount p = 1 \<and> power_refcount (snd (power_put_locked p)) = 0)"
    using dec_is_zero [OF assms]
    by (auto simp add: power_put_locked_def rknpu_power_off_def atomic_dec_if_positive_def
        Let_def split: prod.split if_splits)
  show ?thesis
  proof (cases x)
    case (Acquire r)
    then show ?thesis
      by (simp add: new_power_events_def rknpu_power_get_def rknpu_power_on_def
          atomic_inc_return_def Let_def)
  next
    case Release
    then show ?thesis using put by (simp add: new_power_events_def rknpu_power_put_eq)
  next
    case ReleaseDeferred
    then show ?thesis using put dec_is_zero [OF assms]
      by (auto simp add: new_power_events_def rknpu_power_put_eq rknpu_power_put_delay.simps
          atomic_dec_if_positive_def Let_def)
  next
    case DelayWork
    then show ?thesis using put by (simp add: new_power_events_def rknpu_power_off_delay_work_eq)
  qed
qed

text \<open>
  C5. Starting from a non-negative count, the power reference count is non-negative after
  every sequence of acquire, release, deferred-release and delayed-work steps that holds
  the count inside the 32-bit range of its \<^verbatim>\<open>atomic_t\<close> (fewer than \<open>2^31\<close> acquires on top
  of the starting count). A release at count zero returns 0 and changes nothing: no
  decrement, no power-off. A step runs the power-off sequence exactly when it is a
  release (immediate, deferred without a delay, or the delayed work) that takes the count
  from 1 to 0; the release at count 1 is such a step.
\<close>

theorem power_refcount_never_negative:
  "(0 \<le> power_refcount p
      \<and> power_refcount p + int (length (filter is_acquire ops)) < 2147483648
      \<longrightarrow> 0 \<le> power_refcount (power_run ops p))
   \<and> (power_refcount p = 0 \<longrightarrow> rknpu_power_put p = (0, p))
   \<and> (- 2147483648 \<le> power_refcount p \<and> power_refcount p < 2147483648 \<longrightarrow>
        (PowerOff \<in> set (new_power_events x p))
          = (\<not> is_acquire x \<and> power_refcount p = 1 \<and> power_refcount (power_step x p) = 0))
   \<and> (power_refcount p = 1 \<longrightarrow>
        new_power_events Release p = [PowerOff] \<and> power_refcount (power_step Release p) = 0)"
proof (intro conjI impI)
  assume "0 \<le> power_refcount p
      \<and> power_refcount p + int (length (filter is_acquire ops)) < 2147483648"
  then show "0 \<le> power_refcount (power_run ops p)"
    using power_run_nonneg by blast
next
  assume "power_refcount p = 0"
  then show "rknpu_power_put p = (0, p)"
    by (simp add: rknpu_power_put_eq power_put_locked_zero)
next
  assume "- 2147483648 \<le> power_refcount p \<and> power_refcount p < 2147483648"
  then show "(PowerOff \<in> set (new_power_events x p))
          = (\<not> is_acquire x \<and> power_refcount p = 1 \<and> power_refcount (power_step x p) = 0)"
    using power_off_only_at_last_reference by blast
next
  assume "power_refcount p = 1"
  then show "new_power_events Release p = [PowerOff]"
    by (simp add: new_power_events_def rknpu_power_put_eq power_put_locked_def
        rknpu_power_off_def atomic_dec_if_positive_def Let_def wrap32_def)
next
  assume "power_refcount p = 1"
  then show "power_refcount (power_step Release p) = 0"
    by (simp add: rknpu_power_put_eq power_put_locked_count)
qed

lemma power_run_example:
  "power_run [Release, Acquire 0, Acquire 0, ReleaseDeferred, ReleaseDeferred] power_initial
     = \<lparr>power_refcount = 1, power_put_delay = 3000, power_trace = [PowerOn, QueueDelayedWork]\<rparr>"
  by (simp add: power_run_def power_initial_def rknpu_power_put_eq power_put_locked_def
      rknpu_power_get_def rknpu_power_on_def rknpu_power_off_def rknpu_power_put_delay.simps
      atomic_inc_return_def atomic_dec_if_positive_def Let_def wrap32_def)

theorem power_refcount_never_negative_witness:
  "0 \<le> power_refcount
          (power_run [Release, Acquire 0, Acquire 0, ReleaseDeferred, ReleaseDeferred] power_initial)
   \<and> rknpu_power_put power_initial = (0, power_initial)
   \<and> PowerOff \<in> set (new_power_events DelayWork
        (power_run [Release, Acquire 0, Acquire 0, ReleaseDeferred, ReleaseDeferred] power_initial))
   \<and> power_refcount (power_step Release
        (power_run [Release, Acquire 0, Acquire 0, ReleaseDeferred, ReleaseDeferred] power_initial)) = 0"
proof -
  let ?ops = "[Release, Acquire 0, Acquire 0, ReleaseDeferred, ReleaseDeferred]"
  let ?p = "power_run ?ops power_initial"
  have c0: "power_refcount power_initial = 0" by (simp add: power_initial_def)
  have c1: "power_refcount ?p = 1" by (simp add: power_run_example)
  have s: "power_refcount (power_step DelayWork ?p) = 0"
    by (simp add: power_run_example rknpu_power_off_delay_work_eq power_put_locked_count)
  show ?thesis
    using power_refcount_never_negative [of power_initial ?ops DelayWork]
      power_refcount_never_negative [of ?p "[]" DelayWork] c0 c1 s
    by simp
qed

section \<open>State access\<close>

lemma upd_job_simps [simp]:
  "jobs (upd_job j f d) = (jobs d)(j := map_option f (jobs d j))"
  "subcore_datas (upd_job j f d) = subcore_datas d"
  "config (upd_job j f d) = config d"
  "soft_reseting (upd_job j f d) = soft_reseting d"
  "events (upd_job j f d) = events d"
  "task_mem (upd_job j f d) = task_mem d"
  "next_job (upd_job j f d) = next_job d"
  by (simp_all add: upd_job_def)

lemma upd_subcore_simps [simp]:
  "subcore_datas (upd_subcore c f d) = (subcore_datas d)(c := f (subcore_datas d c))"
  "jobs (upd_subcore c f d) = jobs d"
  "config (upd_subcore c f d) = config d"
  "soft_reseting (upd_subcore c f d) = soft_reseting d"
  "events (upd_subcore c f d) = events d"
  "task_mem (upd_subcore c f d) = task_mem d"
  "next_job (upd_subcore c f d) = next_job d"
  by (simp_all add: upd_subcore_def)

lemma emit_simps [simp]:
  "events (emit es d) = events d @ es"
  "jobs (emit es d) = jobs d"
  "subcore_datas (emit es d) = subcore_datas d"
  "config (emit es d) = config d"
  "soft_reseting (emit es d) = soft_reseting d"
  "task_mem (emit es d) = task_mem d"
  "next_job (emit es d) = next_job d"
  by (simp_all add: emit_def)


section \<open>Evaluation\<close>

lemmas engine_defs =
  rknpu_job_alloc_def rknpu_job_schedule_def schedule_enqueue_def rknpu_job_next_def rknpu_job_commit_def
  rknpu_job_subcore_commit_def rknpu_job_subcore_commit_pc_def rknpu_job_done_def
  rknpu_irq_handler_def rknpu_schedule_core_index_def job_core_mask_def
  rknpu_core_mask_def rknpu_get_task_number_def subcore_range_def commit_window_def
  batch_rounds_def max_submit_int_def atomic_dec_and_test_def atomic_inc_return_def
  rknpu_wait_core_index_def rknpu_fuzz_status_def c_div_def
  RKNPU_MAX_CORES_def RKNPU_CORE_AUTO_MASK_def RKNPU_CORE0_MASK_def RKNPU_CORE1_MASK_def
  RKNPU_CORE2_MASK_def RKNPU_JOB_DONE_def RKNPU_JOB_ASYNC_def RKNPU_JOB_PC_def
  RKNPU_JOB_NONBLOCK_def RKNPU_JOB_PINGPONG_def

lemmas sample_defs =
  idle_device_def sample_submit_def sample_task_def quiet_env_def rk3588_rknpu_config_def

lemma upt3: "[0..<3] = [0, Suc 0, 2]" "[1..<3] = [Suc 0, 2]"
  by (simp_all add: upt_rec)

lemma running_device_slot: "job (subcore_datas running_device 0) = Some 0"
  by (simp add: running_device_def engine_defs sample_defs Let_def upt3 wrap32_def wrap64_def)

lemma running_device_job:
  "jobs running_device 0 \<noteq> None"
  "int_mask (the (jobs running_device 0)) 0 = 0x300"
  by (simp_all add: running_device_def engine_defs sample_defs Let_def upt3 wrap32_def wrap64_def)

section \<open>Interrupts with an unexpected status\<close>

text \<open>
  C7. When an interrupt arrives on a core whose running slot holds a job and the
  bit-group-normalised status differs from the mask recorded for that core at commit, the
  handler writes the interrupt clear register and does nothing else to the device but
  note the interrupt in the job (\<open>irq_entry\<close>, \<open>int_status\<close>): no queue and no running slot
  changes, and the job's batch counter, completion counter, flags and result stay as they
  were, so no completion and no wake-up happen. When the running slot is empty the
  handler writes the interrupt clear register and calls \<^verbatim>\<open>rknpu_job_next\<close> for the core.
\<close>

theorem irq_status_mismatch_drops_interrupt:
  "(job (subcore_datas d c) = Some j \<and> jobs d j = Some J
      \<and> rknpu_fuzz_status status \<noteq> int_mask J c \<longrightarrow>
      events (rknpu_irq_handler d c status)
        = events d @ [RegWrite c RKNPU_OFFSET_INT_CLEAR RKNPU_INT_CLEAR]
      \<and> subcore_datas (rknpu_irq_handler d c status) = subcore_datas d
      \<and> jobs (rknpu_irq_handler d c status)
          = (jobs d)(j \<mapsto> J\<lparr>irq_entry := (irq_entry J)(c := True),
                              int_status := (int_status J)(c := status)\<rparr>))
   \<and> (job (subcore_datas d c) = None \<longrightarrow>
        rknpu_irq_handler d c status
          = rknpu_job_next (emit [RegWrite c RKNPU_OFFSET_INT_CLEAR RKNPU_INT_CLEAR] d) c)"
  by (simp add: rknpu_irq_handler_def Let_def)

theorem irq_status_mismatch_drops_interrupt_witness:
  "job (subcore_datas running_device 0) = Some 0
   \<and> rknpu_fuzz_status 1 \<noteq> int_mask (the (jobs running_device 0)) 0
   \<and> events (rknpu_irq_handler running_device 0 1)
       = events running_device @ [RegWrite 0 RKNPU_OFFSET_INT_CLEAR RKNPU_INT_CLEAR]
   \<and> subcore_datas (rknpu_irq_handler running_device 0 1) = subcore_datas running_device
   \<and> job (subcore_datas idle_device 1) = None
   \<and> rknpu_irq_handler idle_device 1 1
       = rknpu_job_next (emit [RegWrite 1 RKNPU_OFFSET_INT_CLEAR RKNPU_INT_CLEAR] idle_device) 1"
proof -
  have h1: "job (subcore_datas running_device 0) = Some 0"
    by (rule running_device_slot)
  have h2: "jobs running_device 0 = Some (the (jobs running_device 0))"
    using running_device_job(1) by simp
  have h3: "rknpu_fuzz_status 1 \<noteq> int_mask (the (jobs running_device 0)) 0"
    by (simp add: running_device_job(2) rknpu_fuzz_status_def)
  have h4: "job (subcore_datas idle_device 1) = None"
    by (simp add: idle_device_def)
  show ?thesis
    using irq_status_mismatch_drops_interrupt
            [of running_device 0 0 "the (jobs running_device 0)" 1] 
          irq_status_mismatch_drops_interrupt [of idle_device 1 0 undefined 1]
          h1 h2 h3 h4
    by simp
qed

section \<open>What the engine functions leave alone\<close>

lemma fold_keeps: "(\<And>x s. g (f x s) = g s) \<Longrightarrow> g (fold f xs s) = g s"
  by (induction xs arbitrary: s) simp_all

lemma rknpu_job_cleanup_frame [simp]:
  "next_job (rknpu_job_cleanup d j) = next_job d"
  "config (rknpu_job_cleanup d j) = config d"
  "soft_reseting (rknpu_job_cleanup d j) = soft_reseting d"
  "events (rknpu_job_cleanup d j) = events d"
  "subcore_datas (rknpu_job_cleanup d j) = subcore_datas d"
  "task_mem (rknpu_job_cleanup d j) = task_mem d"
  "jobs (rknpu_job_cleanup d j) = (jobs d)(j := None)"
  by (simp_all add: rknpu_job_cleanup_def)

lemma commit_pc_frame [simp]:
  "next_job (rknpu_job_subcore_commit_pc d j c) = next_job d"
  "config (rknpu_job_subcore_commit_pc d j c) = config d"
  "soft_reseting (rknpu_job_subcore_commit_pc d j c) = soft_reseting d"
  "subcore_datas (rknpu_job_subcore_commit_pc d j c) = subcore_datas d"
  "task_mem (rknpu_job_subcore_commit_pc d j c) = task_mem d"
  by (simp_all add: rknpu_job_subcore_commit_pc_def Let_def split: option.split prod.split)

lemma subcore_commit_frame [simp]:
  "next_job (rknpu_job_subcore_commit d j c) = next_job d"
  "config (rknpu_job_subcore_commit d j c) = config d"
  "soft_reseting (rknpu_job_subcore_commit d j c) = soft_reseting d"
  "subcore_datas (rknpu_job_subcore_commit d j c) = subcore_datas d"
  "task_mem (rknpu_job_subcore_commit d j c) = task_mem d"
  by (simp_all add: rknpu_job_subcore_commit_def Let_def split: option.split)

lemma job_commit_frame [simp]:
  "next_job (rknpu_job_commit d j) = next_job d"
  "config (rknpu_job_commit d j) = config d"
  "soft_reseting (rknpu_job_commit d j) = soft_reseting d"
  "subcore_datas (rknpu_job_commit d j) = subcore_datas d"
  "task_mem (rknpu_job_commit d j) = task_mem d"
  by (simp_all add: rknpu_job_commit_def Let_def split: option.split)

lemma job_next_frame [simp]:
  "next_job (rknpu_job_next d c) = next_job d"
  "config (rknpu_job_next d c) = config d"
  "soft_reseting (rknpu_job_next d c) = soft_reseting d"
  "task_mem (rknpu_job_next d c) = task_mem d"
  by (simp_all add: rknpu_job_next_def Let_def split: option.split list.split prod.split)

lemma job_done_frame [simp]:
  "next_job (rknpu_job_done d j r c) = next_job d"
  "config (rknpu_job_done d j r c) = config d"
  "soft_reseting (rknpu_job_done d j r c) = soft_reseting d"
  "task_mem (rknpu_job_done d j r c) = task_mem d"
  by (simp_all add: rknpu_job_done_def Let_def split: option.split prod.split)

lemma irq_handler_frame [simp]:
  "next_job (rknpu_irq_handler d c s) = next_job d"
  "config (rknpu_irq_handler d c s) = config d"
  "soft_reseting (rknpu_irq_handler d c s) = soft_reseting d"
  "task_mem (rknpu_irq_handler d c s) = task_mem d"
  by (simp_all add: rknpu_irq_handler_def Let_def split: option.split)

lemma job_schedule_frame [simp]:
  "next_job (rknpu_job_schedule d j) = next_job d"
  "config (rknpu_job_schedule d j) = config d"
  "soft_reseting (rknpu_job_schedule d j) = soft_reseting d"
  "task_mem (rknpu_job_schedule d j) = task_mem d"
  by (simp_all add: rknpu_job_schedule_def schedule_enqueue_def Let_def fold_keeps split: option.split)

lemma job_abort_frame [simp]:
  "next_job (rknpu_job_abort d j) = next_job d"
  "config (rknpu_job_abort d j) = config d"
  "soft_reseting (rknpu_job_abort d j) = soft_reseting d"
  "task_mem (rknpu_job_abort d j) = task_mem d"
  by (simp_all add: rknpu_job_abort_def Let_def fold_keeps split: option.split)

lemma irqs_fold_frame [simp]:
  "next_job (fold (\<lambda>(c, status) d. rknpu_irq_handler d c status) xs d) = next_job d"
  "config (fold (\<lambda>(c, status) d. rknpu_irq_handler d c status) xs d) = config d"
  "soft_reseting (fold (\<lambda>(c, status) d. rknpu_irq_handler d c status) xs d) = soft_reseting d"
  "task_mem (fold (\<lambda>(c, status) d. rknpu_irq_handler d c status) xs d) = task_mem d"
  by (simp_all add: fold_keeps split: prod.split)

lemma wait_loop_frame_all:
  "next_job (snd (wait_loop env j n d)) = next_job d
   \<and> config (snd (wait_loop env j n d)) = config d
   \<and> soft_reseting (snd (wait_loop env j n d)) = soft_reseting d
   \<and> task_mem (snd (wait_loop env j n d)) = task_mem d"
proof (induction env j n d rule: wait_loop.induct)
  case (1 env j wait_count d)
  then show ?case
    by (cases "wait_condition d j")
       (simp_all add: wait_loop.simps [of env j wait_count d] Let_def)
qed

lemma wait_loop_frame [simp]:
  "next_job (snd (wait_loop env j n d)) = next_job d"
  "config (snd (wait_loop env j n d)) = config d"
  "soft_reseting (snd (wait_loop env j n d)) = soft_reseting d"
  "task_mem (snd (wait_loop env j n d)) = task_mem d"
  using wait_loop_frame_all [of env j n d] by simp_all

lemma job_wait_frame [simp]:
  "next_job (snd (rknpu_job_wait d j env)) = next_job d"
  "config (snd (rknpu_job_wait d j env)) = config d"
  "soft_reseting (snd (rknpu_job_wait d j env)) = soft_reseting d"
  by (simp_all add: rknpu_job_wait_def Let_def fold_keeps case_prod_beta split: option.split)

lemma rknpu_submit_next_job:
  "next_job (snd (snd (rknpu_submit d a env)))
     = (if task_number a = 0 \<or> core_mask a > cfg_core_mask (config d) then next_job d
        else case rknpu_job_alloc d a env of None \<Rightarrow> next_job d | Some _ \<Rightarrow> Suc (next_job d))"
  by (auto simp add: rknpu_submit_def rknpu_job_alloc_def Let_def case_prod_beta split: option.split if_splits)

section \<open>Validation at submit\<close>

lemma core_mask_within_7: "((m::u32) AND 7 = m) = (m \<le> 7)"
proof -
  have "(m AND mask 3 = m) = (uint m < 2 ^ 3)" by (rule mask_eq_iff)
  moreover have "mask 3 = (7 :: 32 word)" by (simp add: mask_eq_exp_minus_1)
  moreover have "(m \<le> 7) = (uint m \<le> 7)" by (simp add: word_le_def)
  ultimately show ?thesis by auto
qed

text \<open>
  C6. On a device whose capability mask is 0x7 (the RK3588 configuration),
  \<^verbatim>\<open>rknpu_submit\<close> returns \<^verbatim>\<open>-EINVAL\<close> with the arguments and the whole device state
  untouched (no job allocated, nothing emitted) exactly when the task count is zero or
  the requested core mask has a bit outside the capability mask. Every other submission
  reaches \<^verbatim>\<open>rknpu_job_alloc\<close>: when that fails the result is \<^verbatim>\<open>-ENOMEM\<close>, otherwise a job
  has been constructed under the next free reference.
\<close>

theorem submit_validation:
  "cfg_core_mask (config d) = 0x7 \<longrightarrow>
     ((rknpu_submit d a env = (- EINVAL, a, d))
        = (task_number a = 0 \<or> core_mask a AND cfg_core_mask (config d) \<noteq> core_mask a))
     \<and> (\<not> (task_number a = 0 \<or> core_mask a AND cfg_core_mask (config d) \<noteq> core_mask a) \<longrightarrow>
          (case rknpu_job_alloc d a env of
             None \<Rightarrow> rknpu_submit d a env = (- ENOMEM, a, d)
           | Some (j, d1) \<Rightarrow>
               j = next_job d
               \<and> next_job (snd (snd (rknpu_submit d a env))) = Suc (next_job d)))"
proof (intro impI conjI)
  assume cap: "cfg_core_mask (config d) = 0x7"
  have v: "(core_mask a > cfg_core_mask (config d)) = (core_mask a AND cfg_core_mask (config d) \<noteq> core_mask a)"
    using core_mask_within_7 [of "core_mask a"] cap by auto
  show "(rknpu_submit d a env = (- EINVAL, a, d))
        = (task_number a = 0 \<or> core_mask a AND cfg_core_mask (config d) \<noteq> core_mask a)"
  proof (cases "task_number a = 0 \<or> core_mask a > cfg_core_mask (config d)")
    case True
    then show ?thesis using v by (auto simp add: rknpu_submit_def)
  next
    case False
    show ?thesis
    proof (cases "rknpu_job_alloc d a env")
      case None
      with False v show ?thesis
        by (auto simp add: rknpu_submit_def EINVAL_def ENOMEM_def)
    next
      case (Some x)
      with False have "next_job (snd (snd (rknpu_submit d a env))) = Suc (next_job d)"
        by (simp add: rknpu_submit_next_job)
      then have "rknpu_submit d a env \<noteq> (- EINVAL, a, d)" by auto
      with False v show ?thesis by auto
    qed
  qed
  assume valid: "\<not> (task_number a = 0 \<or> core_mask a AND cfg_core_mask (config d) \<noteq> core_mask a)"
  with v have nv: "\<not> (task_number a = 0 \<or> core_mask a > cfg_core_mask (config d))" by auto
  show "case rknpu_job_alloc d a env of
             None \<Rightarrow> rknpu_submit d a env = (- ENOMEM, a, d)
           | Some (j, d1) \<Rightarrow>
               j = next_job d
               \<and> next_job (snd (snd (rknpu_submit d a env))) = Suc (next_job d)"
  proof (cases "rknpu_job_alloc d a env")
    case None
    with nv show ?thesis by (auto simp add: rknpu_submit_def)
  next
    case (Some x)
    moreover from Some have "fst x = next_job d"
      by (auto simp add: rknpu_job_alloc_def Let_def split: if_splits)
    ultimately show ?thesis using nv
      by (simp add: rknpu_submit_next_job case_prod_beta)
  qed
qed

theorem submit_validation_witness:
  "cfg_core_mask (config idle_device) = 0x7
   \<and> rknpu_submit idle_device (sample_submit\<lparr>task_number := 0\<rparr>) quiet_env
       = (- EINVAL, sample_submit\<lparr>task_number := 0\<rparr>, idle_device)
   \<and> rknpu_submit idle_device (sample_submit\<lparr>core_mask := 9\<rparr>) quiet_env
       = (- EINVAL, sample_submit\<lparr>core_mask := 9\<rparr>, idle_device)
   \<and> rknpu_submit idle_device sample_submit quiet_env \<noteq> (- EINVAL, sample_submit, idle_device)
   \<and> next_job (snd (snd (rknpu_submit idle_device sample_submit quiet_env))) = Suc 0"
proof -
  have cap: "cfg_core_mask (config idle_device) = 0x7"
    by (simp add: idle_device_def rk3588_rknpu_config_def)
  have a1: "task_number (sample_submit\<lparr>task_number := 0\<rparr>) = 0" by simp
  have a2: "core_mask (sample_submit\<lparr>core_mask := 9\<rparr>) AND cfg_core_mask (config idle_device)
              \<noteq> core_mask (sample_submit\<lparr>core_mask := 9\<rparr>)"
    by (simp add: cap)
  have a3: "\<not> (task_number sample_submit = 0
              \<or> core_mask sample_submit AND cfg_core_mask (config idle_device)
                   \<noteq> core_mask sample_submit)"
    by (simp add: cap sample_submit_def)
  have a4: "rknpu_job_alloc idle_device sample_submit quiet_env \<noteq> None"
    "next_job idle_device = 0"
    by (simp_all add: rknpu_job_alloc_def idle_device_def sample_submit_def quiet_env_def
        RKNPU_JOB_NONBLOCK_def RKNPU_JOB_PC_def Let_def)
  show ?thesis
    using submit_validation [of idle_device "sample_submit\<lparr>task_number := 0\<rparr>" quiet_env]
      submit_validation [of idle_device "sample_submit\<lparr>core_mask := 9\<rparr>" quiet_env]
      submit_validation [of idle_device sample_submit quiet_env]
      cap a1 a2 a3 a4
    by (auto split: option.splits)
qed

section \<open>Core masks the commit dispatch does not know\<close>

lemma commit_pc_other:
  "h \<noteq> j \<Longrightarrow> jobs (rknpu_job_subcore_commit_pc d h c) j = jobs d j"
  by (simp add: rknpu_job_subcore_commit_pc_def Let_def split: option.split prod.split)

lemma subcore_commit_other:
  "h \<noteq> j \<Longrightarrow> jobs (rknpu_job_subcore_commit d h c) j = jobs d j"
  by (simp add: rknpu_job_subcore_commit_def Let_def commit_pc_other split: option.split)

lemma job_commit_other:
  "h \<noteq> j \<Longrightarrow> jobs (rknpu_job_commit d h) j = jobs d j"
  by (simp add: rknpu_job_commit_def Let_def subcore_commit_other split: option.split)



lemma uncommitted_upd [simp]:
  "uncommitted (upd_subcore c f d) j = uncommitted d j"
  "uncommitted (emit es d) j = uncommitted d j"
  "uncommitted (upd_job h (\<lambda>J. J\<lparr>run_count := x J\<rparr>) d) j = uncommitted d j"
  by (auto simp add: uncommitted_def split: option.split)




lemma fold_pres: "(\<And>x s. P s \<Longrightarrow> P (f x s)) \<Longrightarrow> P s \<Longrightarrow> P (fold f xs s)"
  by (induction xs arbitrary: s) simp_all

lemma job_core_mask_upd [simp]:
  "job_core_mask (upd_subcore c f d) j = job_core_mask d j"
  "job_core_mask (emit es d) j = job_core_mask d j"
  by (simp_all add: job_core_mask_def)

lemma job_next_core_mask:
  "job_core_mask (rknpu_job_next d c) j = job_core_mask d j"
proof -
  have pc: "job_core_mask (rknpu_job_subcore_commit_pc d h c) j = job_core_mask d j" for d h c
    by (simp add: rknpu_job_subcore_commit_pc_def job_core_mask_def Let_def
        split: option.split prod.split)
  have sc: "job_core_mask (rknpu_job_subcore_commit d h c) j = job_core_mask d j" for d h c
    by (simp add: rknpu_job_subcore_commit_def Let_def pc split: option.split)
       (simp add: job_core_mask_def)
  have jc: "job_core_mask (rknpu_job_commit d h) j = job_core_mask d j" for d h
    by (simp add: rknpu_job_commit_def Let_def sc split: option.split)
  have up: "job_core_mask (upd_job h (\<lambda>J. J\<lparr>run_count := x J\<rparr>) d) j = job_core_mask d j"
    for h x d
    by (simp add: job_core_mask_def split: option.split)
  show ?thesis
    by (simp add: rknpu_job_next_def Let_def case_prod_beta jc up split: option.split list.split)
qed



lemma commit_pc_keeps:
  assumes "\<And>J x y z. f (J\<lparr>first_task := x, last_task := y, int_mask := z\<rparr>) = f J"
    and "\<And>J r. f (J\<lparr>ret := r\<rparr>) = f J"
  shows "map_option f (jobs (rknpu_job_subcore_commit_pc d h c) j) = map_option f (jobs d j)"
  using assms
  by (auto simp add: rknpu_job_subcore_commit_pc_def Let_def case_prod_beta split: option.split)

lemma subcore_commit_keeps:
  assumes "\<And>J x y z. f (J\<lparr>first_task := x, last_task := y, int_mask := z\<rparr>) = f J"
    and "\<And>J r. f (J\<lparr>ret := r\<rparr>) = f J"
  shows "map_option f (jobs (rknpu_job_subcore_commit d h c) j) = map_option f (jobs d j)"
  using assms
  by (auto simp add: rknpu_job_subcore_commit_def Let_def commit_pc_keeps split: option.split)

lemma job_commit_keeps:
  assumes "\<And>J x y z. f (J\<lparr>first_task := x, last_task := y, int_mask := z\<rparr>) = f J"
    and "\<And>J r. f (J\<lparr>ret := r\<rparr>) = f J"
  shows "map_option f (jobs (rknpu_job_commit d h) j) = map_option f (jobs d j)"
  using assms
  by (simp add: rknpu_job_commit_def Let_def subcore_commit_keeps split: option.split)

lemma job_next_keeps:
  assumes "\<And>J x y z. f (J\<lparr>first_task := x, last_task := y, int_mask := z\<rparr>) = f J"
    and "\<And>J r. f (J\<lparr>ret := r\<rparr>) = f J"
    and "\<And>J n. f (J\<lparr>run_count := n\<rparr>) = f J"
  shows "map_option f (jobs (rknpu_job_next d c) j) = map_option f (jobs d j)"
proof -
  have "map_option f (jobs (rknpu_job_commit d' h) j) = map_option f (jobs d' j)" for d' h
    using assms(1,2) by (rule job_commit_keeps)
  then show ?thesis
    using assms(3)
    by (auto simp add: rknpu_job_next_def Let_def case_prod_beta split: option.split list.split)
qed















section \<open>The commit of a multi-core job\<close>






lemma job_next_idle:
  "soft_reseting d \<or> job (subcore_datas d c) \<noteq> None \<or> todo_list (subcore_datas d c) = []
     \<or> (\<exists>h rest. todo_list (subcore_datas d c) = h # rest \<and> jobs d h = None)
   \<Longrightarrow> subcore_datas (rknpu_job_next d c) c = subcore_datas d c
        \<or> jobs (rknpu_job_next d c) = jobs d"
  by (auto simp add: rknpu_job_next_def Let_def split: option.split list.split)














section \<open>Batched commit rounds\<close>

lemma get_task_number_range:
  "c < 3 \<Longrightarrow> rknpu_get_task_number cfg J c = snd (subcore_range cfg J c)"
  by (simp add: rknpu_get_task_number_def subcore_range_def RKNPU_MAX_CORES_def)

lemma c_div_nonneg: "0 \<le> a \<Longrightarrow> 0 < b \<Longrightarrow> c_div a b = a div b"
  by (cases "a = 0") (simp_all add: c_div_def)

lemma div_mult_le_int:
  fixes a b :: int
  assumes "0 < b"
  shows "a div b * b \<le> a" and "a < (a div b + 1) * b"
proof -
  have e: "a div b * b + a mod b = a" by (rule div_mult_mod_eq)
  have "0 \<le> a mod b" "a mod b < b" using assms by simp_all
  with e show "a div b * b \<le> a" by linarith
  have "(a div b + 1) * b = a div b * b + b" by (simp add: algebra_simps)
  with e \<open>a mod b < b\<close> show "a < (a div b + 1) * b" by linarith
qed

lemma rounds_bound:
  fixes k M T :: int
  assumes "0 < M" and "k < (T + M - 1) div M"
  shows "k * M < T"
proof -
  from assms(2) have "k + 1 \<le> (T + M - 1) div M" by simp
  then have "(k + 1) * M \<le> ((T + M - 1) div M) * M"
    using assms(1) by (simp add: mult_right_mono)
  also have "\<dots> \<le> T + M - 1"
    using assms(1) by (rule div_mult_le_int(1))
  finally show ?thesis by (simp add: algebra_simps)
qed

lemma rounds_last:
  fixes k M T :: int
  assumes "0 < M" and "\<not> k + 1 < (T + M - 1) div M"
  shows "T \<le> (k + 1) * M"
proof -
  from assms(2) have "(T + M - 1) div M + 1 \<le> k + 2" by simp
  then have "((T + M - 1) div M + 1) * M \<le> (k + 2) * M"
    using assms(1) by (simp only: mult_right_mono less_imp_le)
  moreover have "T + M - 1 < ((T + M - 1) div M + 1) * M"
    using assms(1) by (rule div_mult_le_int(2))
  ultimately show ?thesis by (simp add: algebra_simps)
qed

lemma commit_window_batch:
  assumes "0 < M" and "0 \<le> k" and "k * M < T" and "0 \<le> ts0" and "ts0 + T < 2147483648"
    and "M < 2147483648"
  shows "commit_window ts0 T k M
         = (ts0 + k * M, min M (T - k * M), ts0 + k * M + min M (T - k * M) - 1)"
proof -
  have km: "0 \<le> k * M" using assms by simp
  have w1: "wrap32 (k * M) = k * M" using assms km by (intro wrap32_id) linarith+
  have w2: "wrap32 (ts0 + k * M) = ts0 + k * M" using assms km by (intro wrap32_id) linarith+
  have w3: "wrap32 (T - k * M) = T - k * M" using assms km by (intro wrap32_id) linarith+
  let ?n = "min M (T - k * M)"
  have n: "0 < ?n" "?n \<le> T - k * M" using assms by simp_all
  have w4: "wrap32 (ts0 + k * M + ?n) = ts0 + k * M + ?n"
    using assms km n by (intro wrap32_id) linarith+
  have w5: "wrap32 (ts0 + k * M + ?n - 1) = ts0 + k * M + ?n - 1"
    using assms km n by (intro wrap32_id) linarith+
  have m: "(if T - k * M > M then M else T - k * M) = ?n" by (simp add: min_def)
  show ?thesis
    unfolding commit_window_def Let_def w1 w2 w3 m w4 w5 by simp
qed


lemma task_ctrl_writes_append:
  "task_ctrl_writes c (xs @ ys) = task_ctrl_writes c xs @ task_ctrl_writes c ys"
  by (induction c xs rule: task_ctrl_writes.induct) simp_all

lemma commit_round:
  assumes J: "jobs d j = Some J"
    and pc: "flags (args J) AND RKNPU_JOB_PC \<noteq> 0" and obj: "task_obj_addr (args J) \<noteq> 0"
    and r: "subcore_range (config d) J c = (ts0, T)"
    and M: "0 < max_submit_int (config d)"
    and k: "submit_count J c = k" "0 \<le> k" "k * max_submit_int (config d) < T"
    and rng: "0 \<le> ts0" "ts0 + T < 2147483648"
  shows "jobs (rknpu_job_subcore_commit d j c) j
         = Some (J\<lparr>first_task := Some (ts0 + k * max_submit_int (config d)),
                   last_task := Some (ts0 + k * max_submit_int (config d)
                                       + batch_len T (max_submit_int (config d)) k - 1),
                   int_mask := (int_mask J)(c := task_int_mask
                      (task_mem d (task_obj_addr (args J))
                         (ts0 + k * max_submit_int (config d)
                            + batch_len T (max_submit_int (config d)) k - 1)))\<rparr>)"
    and "task_ctrl_writes c (drop (length (events d)) (events (rknpu_job_subcore_commit d j c)))
         = [task_ctrl (config d) (args J) (batch_len T (max_submit_int (config d)) k)]"
    and "RegWrite c RKNPU_OFFSET_PC_OP_EN 1
           \<in> set (drop (length (events d)) (events (rknpu_job_subcore_commit d j c)))"
proof -
  let ?M = "max_submit_int (config d)"
  have Mr: "?M < 2147483648"
    using sint_lt [of "ucast (max_submit_number (config d)) :: u32"]
    by (simp add: max_submit_int_def)
  have w: "commit_window ts0 T k ?M
         = (ts0 + k * ?M, min ?M (T - k * ?M), ts0 + k * ?M + min ?M (T - k * ?M) - 1)"
    using M k(2,3) rng Mr by (rule commit_window_batch)
  show "jobs (rknpu_job_subcore_commit d j c) j
         = Some (J\<lparr>first_task := Some (ts0 + k * ?M),
                   last_task := Some (ts0 + k * ?M + batch_len T ?M k - 1),
                   int_mask := (int_mask J)(c := task_int_mask
                      (task_mem d (task_obj_addr (args J))
                         (ts0 + k * ?M + batch_len T ?M k - 1)))\<rparr>)"
    using J pc obj r k(1) w
    by (simp add: rknpu_job_subcore_commit_def rknpu_job_subcore_commit_pc_def Let_def
        batch_len_def)
  show "task_ctrl_writes c (drop (length (events d)) (events (rknpu_job_subcore_commit d j c)))
         = [task_ctrl (config d) (args J) (batch_len T ?M k)]"
    using J pc obj r k(1) w
    by (simp add: rknpu_job_subcore_commit_def rknpu_job_subcore_commit_pc_def Let_def
        batch_len_def task_ctrl_def RKNPU_OFFSET_PC_OP_EN_def RKNPU_OFFSET_PC_DATA_ADDR_def
        RKNPU_OFFSET_PC_DATA_AMOUNT_def RKNPU_OFFSET_INT_MASK_def RKNPU_OFFSET_INT_CLEAR_def
        RKNPU_OFFSET_PC_TASK_CONTROL_def RKNPU_OFFSET_PC_DMA_BASE_ADDR_def)
  show "RegWrite c RKNPU_OFFSET_PC_OP_EN 1
           \<in> set (drop (length (events d)) (events (rknpu_job_subcore_commit d j c)))"
    using J pc obj
    by (simp add: rknpu_job_subcore_commit_def rknpu_job_subcore_commit_pc_def Let_def
        case_prod_beta)
qed


lemma batch_rounds_eq:
  assumes "c < 3" and "subcore_range cfg J c = (ts0, T)" and "0 < T"
    and "0 < max_submit_int cfg" and "T + max_submit_int cfg < 2147483648"
  shows "batch_rounds cfg J c = (T + max_submit_int cfg - 1) div max_submit_int cfg"
proof -
  let ?M = "max_submit_int cfg"
  have g: "rknpu_get_task_number cfg J c = T"
    using assms(1,2) by (simp add: get_task_number_range)
  have w1: "wrap32 (T + ?M) = T + ?M" using assms by (intro wrap32_id) linarith+
  have w2: "wrap32 (T + ?M - 1) = T + ?M - 1" using assms by (intro wrap32_id) linarith+
  show ?thesis
    using assms by (simp add: batch_rounds_def g w1 w2 c_div_nonneg)
qed

lemma job_next_slot:
  assumes "j \<notin> set (todo_list (subcore_datas d c))" and "job (subcore_datas d c) \<noteq> Some j"
  shows "job (subcore_datas (rknpu_job_next d c) c) \<noteq> Some j"
  using assms
  by (auto simp add: rknpu_job_next_def Let_def case_prod_beta split: option.split list.split)

lemma job_done_recommit:
  assumes J: "jobs d j = Some J" and c: "c < 3"
    and r: "subcore_range (config d) J c = (ts0, T)" and T: "0 < T"
    and M: "0 < max_submit_int (config d)" "T + max_submit_int (config d) < 2147483648"
    and k: "submit_count J c = k" "0 \<le> k"
      "k + 1 < (T + max_submit_int (config d) - 1) div max_submit_int (config d)"
  shows "rknpu_job_done d j res c
         = rknpu_job_subcore_commit
             (upd_job j (\<lambda>J. J\<lparr>submit_count := (submit_count J)(c := k + 1)\<rparr>) d) j c"
proof -
  let ?M = "max_submit_int (config d)"
  have "(k + 1) * ?M < T" using M(1) k(3) by (rule rounds_bound)
  moreover have "k + 1 \<le> (k + 1) * ?M" using M(1) k(2) by (simp add: mult_le_cancel_left1)
  ultimately have "k + 1 < 2147483648" using M T by linarith
  then have w: "wrap32 (k + 1) = k + 1" using k(2) by (intro wrap32_id) linarith+
  have u: "upd_job j (\<lambda>J. J\<lparr>submit_count := (submit_count J)(c := k + 1)\<rparr>) d
           = upd_job j (\<lambda>J'. J'\<lparr>submit_count := (submit_count J')(c := wrap32 (submit_count J c + 1))\<rparr>) d"
    by (simp add: k(1) w)
  show ?thesis
    using J k(3)
    by (simp add: rknpu_job_done_def Let_def atomic_inc_return_def k(1) w
        batch_rounds_eq [OF c r T M])
qed

lemma job_done_finish:
  assumes J: "jobs d j = Some J" and c: "c < 3"
    and r: "subcore_range (config d) J c = (ts0, T)" and T: "0 < T"
    and M: "0 < max_submit_int (config d)" "T + max_submit_int (config d) < 2147483648"
    and k: "submit_count J c = k" "0 \<le> k" "k < 2147483647"
      "\<not> k + 1 < (T + max_submit_int (config d) - 1) div max_submit_int (config d)"
  shows "map_option (\<lambda>J. submit_count J c) (jobs (rknpu_job_done d j res c) j) = Some (k + 1)"
    and "map_option interrupt_count (jobs (rknpu_job_done d j res c) j)
         = Some (wrap32 (interrupt_count J - 1))"
    and "j \<notin> set (todo_list (subcore_datas d c))
         \<Longrightarrow> job (subcore_datas (rknpu_job_done d j res c) c) \<noteq> Some j"
proof -
  have w: "wrap32 (k + 1) = k + 1" using k(2,3) by (intro wrap32_id) linarith+
  let ?d1 = "upd_job j (\<lambda>J. J\<lparr>submit_count := (submit_count J)(c := k + 1)\<rparr>) d"
  let ?d2 = "upd_subcore c (\<lambda>s. s\<lparr>job := None, task_num := wrap64 (task_num s
               - rknpu_get_task_number (config d) J c)\<rparr>) ?d1"
  let ?d3 = "upd_job j (\<lambda>J'. J'\<lparr>interrupt_count := wrap32 (interrupt_count J - 1)\<rparr>) ?d2"
  let ?d4 = "if wrap32 (interrupt_count J - 1) = 0 then
               emit ((if (job_flags J OR RKNPU_JOB_DONE) AND RKNPU_JOB_ASYNC \<noteq> 0
                      then [ScheduleWork j] else [])
                     @ [if use_core_num J > 1 then WakeUp 0 else WakeUp c])
                 (upd_job j (\<lambda>J. J\<lparr>job_flags := job_flags J OR RKNPU_JOB_DONE, ret := res\<rparr>) ?d3)
             else ?d3"
  have e: "rknpu_job_done d j res c = rknpu_job_next ?d4 c"
    using J k(4)
    by (simp add: rknpu_job_done_def Let_def atomic_inc_return_def k(1) w
        atomic_dec_and_test_def batch_rounds_eq [OF c r T M])
  have "map_option (\<lambda>J. submit_count J c) (jobs (rknpu_job_next ?d4 c) j)
        = map_option (\<lambda>J. submit_count J c) (jobs ?d4 j)"
    by (rule job_next_keeps) simp_all
  then show "map_option (\<lambda>J. submit_count J c) (jobs (rknpu_job_done d j res c) j) = Some (k + 1)"
    using J by (simp add: e)
  have "map_option interrupt_count (jobs (rknpu_job_next ?d4 c) j)
        = map_option interrupt_count (jobs ?d4 j)"
    by (rule job_next_keeps) simp_all
  then show "map_option interrupt_count (jobs (rknpu_job_done d j res c) j)
         = Some (wrap32 (interrupt_count J - 1))"
    using J by (simp add: e)
  show "job (subcore_datas (rknpu_job_done d j res c) c) \<noteq> Some j"
    if "j \<notin> set (todo_list (subcore_datas d c))"
    unfolding e by (rule job_next_slot) (use that in simp_all)
qed


lemma subcore_commit_extends:
  "events (rknpu_job_subcore_commit d j c)
   = events d @ drop (length (events d)) (events (rknpu_job_subcore_commit d j c))"
  by (simp add: rknpu_job_subcore_commit_def rknpu_job_subcore_commit_pc_def Let_def
      case_prod_beta split: option.split)

lemma subcore_range_cong:
  "args J' = args J \<Longrightarrow> use_core_num J' = use_core_num J \<Longrightarrow>
   subcore_range cfg J' c = subcore_range cfg J c"
  by (simp add: subcore_range_def)

lemma completions_recommit:
  assumes J: "jobs d j = Some J" and c: "c < 3"
    and pc: "flags (args J) AND RKNPU_JOB_PC \<noteq> 0" and obj: "task_obj_addr (args J) \<noteq> 0"
    and r: "subcore_range (config d) J c = (ts0, T)"
    and M: "0 < max_submit_int (config d)" "0 < T"
    and rng: "0 \<le> ts0" "ts0 + T < 2147483648" "T + max_submit_int (config d) < 2147483648"
    and k: "submit_count J c = 0"
    and n: "int n < (T + max_submit_int (config d) - 1) div max_submit_int (config d)"
  shows "\<exists>Jn es. jobs (completions n d j c) j = Some Jn
           \<and> args Jn = args J \<and> use_core_num Jn = use_core_num J
           \<and> submit_count Jn c = int n \<and> interrupt_count Jn = interrupt_count J
           \<and> job_flags Jn = job_flags J
           \<and> config (completions n d j c) = config d
           \<and> subcore_datas (completions n d j c) = subcore_datas d
           \<and> events (completions n d j c) = events d @ es
           \<and> task_ctrl_writes c es
               = map (\<lambda>i. task_ctrl (config d) (args J)
                            (batch_len T (max_submit_int (config d)) (int i))) [1 ..< Suc n]"
  using n
proof (induction n)
  case 0
  then show ?case using J k by simp
next
  case (Suc n)
  let ?M = "max_submit_int (config d)"
  let ?dn = "completions n d j c"
  from Suc.prems have n: "int n < (T + ?M - 1) div ?M"
    and n1: "int n + 1 < (T + ?M - 1) div ?M" by simp_all
  from Suc.IH [OF n] obtain Jn es where
    Jn: "jobs ?dn j = Some Jn" "args Jn = args J" "use_core_num Jn = use_core_num J"
      "submit_count Jn c = int n" "interrupt_count Jn = interrupt_count J"
      "job_flags Jn = job_flags J"
    and fr: "config ?dn = config d" "subcore_datas ?dn = subcore_datas d"
    and ev: "events ?dn = events d @ es"
      "task_ctrl_writes c es
        = map (\<lambda>i. task_ctrl (config d) (args J) (batch_len T ?M (int i))) [1 ..< Suc n]"
    by blast
  have rn: "subcore_range (config ?dn) Jn c = (ts0, T)"
    using r subcore_range_cong [OF Jn(2,3)] fr(1) by simp
  let ?d' = "upd_job j (\<lambda>J. J\<lparr>submit_count := (submit_count J)(c := int n + 1)\<rparr>) ?dn"
  let ?J' = "Jn\<lparr>submit_count := (submit_count Jn)(c := int n + 1)\<rparr>"
  have step: "completions (Suc n) d j c = rknpu_job_subcore_commit ?d' j c"
    using job_done_recommit [OF Jn(1) c rn M(2), of "int n" 0] M(1) rng(3) Jn(4) n1
    by (simp add: fr(1))
  have J': "jobs ?d' j = Some ?J'" using Jn(1) by simp
  have r': "subcore_range (config ?d') ?J' c = (ts0, T)"
    using rn subcore_range_cong [of ?J' Jn "config ?dn" c] by simp
  have lt: "(int n + 1) * max_submit_int (config ?d') < T"
    using rounds_bound [OF M(1) n1] by (simp add: fr(1))
  note cr = commit_round [OF J' _ _ r' _ _ _ lt rng(1,2)]
  have jobs': "jobs (rknpu_job_subcore_commit ?d' j c) j
      = Some (?J'\<lparr>first_task := Some (ts0 + (int n + 1) * ?M),
                   last_task := Some (ts0 + (int n + 1) * ?M + batch_len T ?M (int n + 1) - 1),
                   int_mask := (int_mask ?J')(c := task_int_mask
                      (task_mem ?d' (task_obj_addr (args ?J'))
                         (ts0 + (int n + 1) * ?M + batch_len T ?M (int n + 1) - 1)))\<rparr>)"
    using cr(1) pc obj M(1) Jn(2) by (simp add: fr(1))
  have ctl: "task_ctrl_writes c (drop (length (events ?d')) (events (rknpu_job_subcore_commit ?d' j c)))
      = [task_ctrl (config d) (args J) (batch_len T ?M (int n + 1))]"
    using cr(2) pc obj M(1) Jn(2) by (simp add: fr(1))
  define new where "new = drop (length (events ?d')) (events (rknpu_job_subcore_commit ?d' j c))"
  have ev': "events (rknpu_job_subcore_commit ?d' j c) = events d @ (es @ new)"
    using subcore_commit_extends [of ?d' j c] ev(1) by (simp add: new_def)
  have up: "[1 ..< Suc (Suc n)] = [1 ..< Suc n] @ [Suc n]" by simp
  have "task_ctrl_writes c new
        = [task_ctrl (config d) (args J) (batch_len T ?M (int (Suc n)))]"
    using ctl by (simp add: new_def add.commute [of 1 "int n"])
  then have tcw: "task_ctrl_writes c (es @ new)
        = map (\<lambda>i. task_ctrl (config d) (args J) (batch_len T ?M (int i))) [1 ..< Suc (Suc n)]"
    unfolding up by (simp only: task_ctrl_writes_append ev(2) map_append list.map)
  let ?Jn1 = "?J'\<lparr>first_task := Some (ts0 + (int n + 1) * ?M),
                   last_task := Some (ts0 + (int n + 1) * ?M + batch_len T ?M (int n + 1) - 1),
                   int_mask := (int_mask ?J')(c := task_int_mask
                      (task_mem ?d' (task_obj_addr (args ?J'))
                         (ts0 + (int n + 1) * ?M + batch_len T ?M (int n + 1) - 1)))\<rparr>"
  have a: "args ?Jn1 = args J" "use_core_num ?Jn1 = use_core_num J"
    "submit_count ?Jn1 c = int (Suc n)" "interrupt_count ?Jn1 = interrupt_count J"
    "job_flags ?Jn1 = job_flags J"
    using Jn by simp_all
  have b: "config (rknpu_job_subcore_commit ?d' j c) = config d"
    "subcore_datas (rknpu_job_subcore_commit ?d' j c) = subcore_datas d"
    using fr by simp_all
  show ?case
    unfolding step
    apply (rule exI [where x = ?Jn1])
    apply (rule exI [where x = "es @ new"])
    apply (intro conjI)
    apply (rule jobs')
    apply (rule a b ev' tcw)+
    done
qed


lemma ten_tasks_in_batches_of_four:
  "submit_summary (rknpu_submit small_batch_device sample_submit
      (irq_env [(0, 0x100), (0, 0x100), (0, 0x100)])) = (0, 10, [4, 4, 2], 3)"
  "submit_summary (rknpu_submit small_batch_device sample_submit
      (irq_env [(0, 0x100), (0, 0x100)])) = (- ETIMEDOUT, 0, [4, 4, 2], 3)"
  by code_simp+

text \<open>
  C3. Take a program-counter job with a task object, a core below 3 whose range for that
  job starts at \<open>base\<close> and counts \<open>T\<close> tasks, and a batch limit \<open>M\<close> with \<open>0 < M < T\<close>,
  all inside the range of a C \<^verbatim>\<open>int\<close>; let \<open>N = (T + M - 1) div M\<close>, the ceiling of
  \<open>T / M\<close>. With the core's submit counter at \<open>k < N\<close>, the commit hands hardware the
  tasks from \<open>base + k * M\<close> to \<open>base + k * M + min M (T - k * M) - 1\<close>: these are the two
  task pointers it records, it writes the task control register once, with that length,
  and pulses the start register. The completion of round \<open>k\<close> is the commit of round
  \<open>k + 1\<close> when \<open>k + 1 < N\<close>; otherwise it leaves the counter at \<open>N\<close> and the job leaves
  the running slot. Starting at counter 0, the first \<open>n < N\<close> completions add exactly the
  rounds \<open>1, ..., n\<close> to the trace and keep the job in its slot. On a device with batch
  limit 4, a ten-task job for core 0 that receives three matching interrupts returns 0
  with task counter 10 after three rounds of 4, 4 and 2 tasks and three start pulses; with
  only two interrupts it times out.
\<close>

theorem batched_commit_rounds:
  assumes J: "jobs d j = Some J" and c: "c < 3"
    and pc: "flags (args J) AND RKNPU_JOB_PC \<noteq> 0" and obj: "task_obj_addr (args J) \<noteq> 0"
    and r: "subcore_range (config d) J c = (base, T)"
    and M: "M = max_submit_int (config d)" "0 < M" "M < T"
    and rng: "0 \<le> base" "base + T < 2147483648" "T + M < 2147483648"
    and N: "N = (T + M - 1) div M"
    and k: "submit_count J c = k" "0 \<le> k" "k < N"
  shows "map_option (\<lambda>J. (first_task J, last_task J)) (jobs (rknpu_job_subcore_commit d j c) j)
           = Some (Some (base + k * M), Some (base + k * M + min M (T - k * M) - 1))
     \<and> task_ctrl_writes c (drop (length (events d)) (events (rknpu_job_subcore_commit d j c)))
         = [task_ctrl (config d) (args J) (min M (T - k * M))]
     \<and> started (drop (length (events d)) (events (rknpu_job_subcore_commit d j c))) c
     \<and> (if k + 1 < N
         then rknpu_job_done d j res c
              = rknpu_job_subcore_commit
                  (upd_job j (\<lambda>J. J\<lparr>submit_count := (submit_count J)(c := k + 1)\<rparr>) d) j c
         else map_option (\<lambda>J. submit_count J c) (jobs (rknpu_job_done d j res c) j) = Some N
              \<and> (j \<notin> set (todo_list (subcore_datas d c))
                    \<longrightarrow> job (subcore_datas (rknpu_job_done d j res c) c) \<noteq> Some j))
     \<and> (N - 1) * M < T \<and> T \<le> N * M
     \<and> (k = 0 \<longrightarrow> (\<forall>n. int n < N \<longrightarrow>
           task_ctrl_writes c (drop (length (events d)) (events (completions n d j c)))
             = map (\<lambda>i. task_ctrl (config d) (args J) (min M (T - int i * M))) [1 ..< Suc n]
           \<and> map_option (\<lambda>J. submit_count J c) (jobs (completions n d j c) j) = Some (int n)
           \<and> job (subcore_datas (completions n d j c) c) = job (subcore_datas d c)))
     \<and> submit_summary (rknpu_submit small_batch_device sample_submit
          (irq_env [(0, 0x100), (0, 0x100), (0, 0x100)])) = (0, 10, [4, 4, 2], 3)
     \<and> submit_summary (rknpu_submit small_batch_device sample_submit
          (irq_env [(0, 0x100), (0, 0x100)])) = (- ETIMEDOUT, 0, [4, 4, 2], 3)"
proof -
  have T: "0 < T" using M by simp
  have M': "0 < max_submit_int (config d)" "T + max_submit_int (config d) < 2147483648"
    using M rng by simp_all
  have kN: "k < (T + max_submit_int (config d) - 1) div max_submit_int (config d)"
    using k N M by simp
  have kM: "k * max_submit_int (config d) < T"
    using rounds_bound [OF M'(1) kN] .
  note cr = commit_round [OF J pc obj r M'(1) k(1,2) kM rng(1,2)]
  have p1: "map_option (\<lambda>J. (first_task J, last_task J)) (jobs (rknpu_job_subcore_commit d j c) j)
           = Some (Some (base + k * M), Some (base + k * M + min M (T - k * M) - 1))"
    using cr(1) by (simp add: M(1) batch_len_def)
  have p2: "task_ctrl_writes c (drop (length (events d)) (events (rknpu_job_subcore_commit d j c)))
         = [task_ctrl (config d) (args J) (min M (T - k * M))]"
    using cr(2) by (simp add: M(1) batch_len_def)
  have p3: "started (drop (length (events d)) (events (rknpu_job_subcore_commit d j c))) c"
    using cr(3) by (simp add: started_def)
  have p4: "if k + 1 < N
         then rknpu_job_done d j res c
              = rknpu_job_subcore_commit
                  (upd_job j (\<lambda>J. J\<lparr>submit_count := (submit_count J)(c := k + 1)\<rparr>) d) j c
         else map_option (\<lambda>J. submit_count J c) (jobs (rknpu_job_done d j res c) j) = Some N
              \<and> (j \<notin> set (todo_list (subcore_datas d c))
                    \<longrightarrow> job (subcore_datas (rknpu_job_done d j res c) c) \<noteq> Some j)"
  proof (cases "k + 1 < N")
    case True
    then have "k + 1 < (T + max_submit_int (config d) - 1) div max_submit_int (config d)"
      using N M by simp
    from job_done_recommit [OF J c r T M' k(1,2) this] True show ?thesis by simp
  next
    case False
    then have f: "\<not> k + 1 < (T + max_submit_int (config d) - 1) div max_submit_int (config d)"
      using N M by simp
    have "k \<le> k * max_submit_int (config d)"
      using M'(1) k(2) by (simp add: mult_le_cancel_left1)
    with kM rng have k3: "k < 2147483647" by linarith
    from False k(3) have kn: "k + 1 = N" by simp
    from job_done_finish [OF J c r T M' k(1,2) k3 f, of res] False kn show ?thesis by simp
  qed
  have nn: "N - 1 < (T + M - 1) div M" using N by simp
  have p5: "(N - 1) * M < T" using rounds_bound [OF M(2) nn] .
  have "\<not> (N - 1) + 1 < (T + M - 1) div M" using N by simp
  from rounds_last [OF M(2) this] have p6: "T \<le> N * M" by simp
  have p7: "task_ctrl_writes c (drop (length (events d)) (events (completions n d j c)))
             = map (\<lambda>i. task_ctrl (config d) (args J) (min M (T - int i * M))) [1 ..< Suc n]
           \<and> map_option (\<lambda>J. submit_count J c) (jobs (completions n d j c) j) = Some (int n)
           \<and> job (subcore_datas (completions n d j c) c) = job (subcore_datas d c)"
    if "k = 0" "int n < N" for n
  proof -
    from that k(1) have k0: "submit_count J c = 0" by simp
    from that(2) N M
    have n: "int n < (T + max_submit_int (config d) - 1) div max_submit_int (config d)" by simp
    from completions_recommit [OF J c pc obj r M'(1) T rng(1,2) M'(2) k0 n]
    show ?thesis by (auto simp add: M(1) batch_len_def)
  qed
  show ?thesis
    using p1 p2 p3 p4 p5 p6 p7 ten_tasks_in_batches_of_four by (simp only: simp_thms) blast
qed


lemma running_small_eval:
  "jobs running_small 0 \<noteq> None"
  "flags (args (the (jobs running_small 0))) AND RKNPU_JOB_PC \<noteq> 0"
  "task_obj_addr (args (the (jobs running_small 0))) \<noteq> 0"
  "subcore_range (config running_small) (the (jobs running_small 0)) 0 = (0, 10)"
  "max_submit_int (config running_small) = 4"
  "submit_count (the (jobs running_small 0)) 0 = 0"
  by code_simp+

theorem batched_commit_rounds_witness:
  "rknpu_job_done running_small 0 0 0
     = rknpu_job_subcore_commit
         (upd_job 0 (\<lambda>J. J\<lparr>submit_count := (submit_count J)(0 := 1)\<rparr>) running_small) 0 0
   \<and> task_ctrl_writes 0 (drop (length (events running_small))
        (events (rknpu_job_subcore_commit running_small 0 0)))
       = [task_ctrl (config running_small) (args (the (jobs running_small 0))) 4]
   \<and> task_ctrl_writes 0 (drop (length (events running_small))
        (events (completions 2 running_small 0 0)))
       = [task_ctrl (config running_small) (args (the (jobs running_small 0))) 4,
          task_ctrl (config running_small) (args (the (jobs running_small 0))) 2]"
proof -
  obtain J where J: "jobs running_small 0 = Some J"
    using running_small_eval(1) by blast
  note e = running_small_eval(2-6) [unfolded J option.sel]
  have n: "(3::int) = (10 + 4 - 1) div 4" by simp
  note t = batched_commit_rounds [where d = running_small and j = 0 and J = J and c = 0
      and base = 0 and T = 10 and M = 4 and N = 3 and k = 0 and res = 0,
      OF J _ e(1) e(2) e(3) e(4) [symmetric] _ _ _ _ _ n e(5)]
  have u: "[Suc 0 ..< 3] = [Suc 0, 2]" by (simp add: upt_rec)
  from t have a: "rknpu_job_done running_small 0 0 0
     = rknpu_job_subcore_commit
         (upd_job 0 (\<lambda>J. J\<lparr>submit_count := (submit_count J)(0 := 1)\<rparr>) running_small) 0 0"
    by simp
  from t have b: "task_ctrl_writes 0 (drop (length (events running_small))
        (events (rknpu_job_subcore_commit running_small 0 0)))
       = [task_ctrl (config running_small) (args J) 4]"
    by simp
  from t have "\<forall>n. int n < 3 \<longrightarrow>
           task_ctrl_writes 0 (drop (length (events running_small)) (events (completions n running_small 0 0)))
             = map (\<lambda>i. task_ctrl (config running_small) (args J) (min 4 (10 - int i * 4))) [1 ..< Suc n]"
    by simp
  from this [rule_format, of 2] have c: "task_ctrl_writes 0 (drop (length (events running_small))
        (events (completions 2 running_small 0 0)))
       = [task_ctrl (config running_small) (args J) 4, task_ctrl (config running_small) (args J) 2]"
    by (simp add: u)
  show ?thesis using a b c by (simp add: J)
qed

section \<open>The interrupt counter of a job\<close>

lemma wake_ups_append [simp]: "wake_ups (xs @ ys) = wake_ups xs @ wake_ups ys"
  by (induction xs rule: wake_ups.induct) simp_all

lemma commit_pc_wake_ups [simp]:
  "wake_ups (events (rknpu_job_subcore_commit_pc d j c)) = wake_ups (events d)"
  by (simp add: rknpu_job_subcore_commit_pc_def Let_def case_prod_beta split: option.split)

lemma subcore_commit_wake_ups [simp]:
  "wake_ups (events (rknpu_job_subcore_commit d j c)) = wake_ups (events d)"
  by (simp add: rknpu_job_subcore_commit_def Let_def split: option.split)

lemma job_commit_wake_ups [simp]:
  "wake_ups (events (rknpu_job_commit d j)) = wake_ups (events d)"
  by (simp add: rknpu_job_commit_def Let_def split: option.split)

lemma job_next_wake_ups [simp]:
  "wake_ups (events (rknpu_job_next d c)) = wake_ups (events d)"
  by (simp add: rknpu_job_next_def Let_def case_prod_beta split: option.split list.split)

lemma job_next_other:
  "j \<notin> set (todo_list (subcore_datas d c)) \<Longrightarrow> jobs (rknpu_job_next d c) j = jobs d j"
  by (auto simp add: rknpu_job_next_def Let_def case_prod_beta job_commit_other
      split: option.split list.split)

lemma dec_and_test_one:
  "- 2147483648 \<le> n \<Longrightarrow> n \<le> 2147483647 \<Longrightarrow> fst (atomic_dec_and_test n) = (n = 1)"
  "- 2147483648 < n \<Longrightarrow> n \<le> 2147483647 \<Longrightarrow> snd (atomic_dec_and_test n) = n - 1"
proof -
  show "fst (atomic_dec_and_test n) = (n = 1)"
    if "- 2147483648 \<le> n" "n \<le> 2147483647"
  proof (cases "n = - 2147483648")
    case True
    then show ?thesis by (simp add: atomic_dec_and_test_def wrap32_def)
  next
    case False
    with that have "wrap32 (n - 1) = n - 1" by (intro wrap32_id) linarith+
    then show ?thesis by (simp add: atomic_dec_and_test_def)
  qed
  show "snd (atomic_dec_and_test n) = n - 1" if "- 2147483648 < n" "n \<le> 2147483647"
  proof -
    from that have "wrap32 (n - 1) = n - 1" by (intro wrap32_id) linarith+
    then show ?thesis by (simp add: atomic_dec_and_test_def)
  qed
qed

lemma job_done_more:
  assumes "jobs d j = Some J" and "\<not> final_batch d j c"
  shows "rknpu_job_done d j r c
         = rknpu_job_subcore_commit
             (upd_job j (\<lambda>J'. J'\<lparr>submit_count := (submit_count J')(c :=
                 snd (atomic_inc_return (submit_count J c)))\<rparr>) d) j c"
  using assms by (simp add: rknpu_job_done_def final_batch_def Let_def case_prod_beta)

lemma job_done_last:
  assumes "jobs d j = Some J" and "final_batch d j c"
  shows "rknpu_job_done d j r c
         = rknpu_job_next
            (let d1 = upd_job j (\<lambda>J'. J'\<lparr>submit_count := (submit_count J')(c :=
                        snd (atomic_inc_return (submit_count J c)))\<rparr>) d;
                 d2 = upd_subcore c
                        (\<lambda>s. s\<lparr>job := None,
                                task_num := wrap64 (task_num s
                                   - rknpu_get_task_number (config d) J c)\<rparr>) d1;
                 d3 = upd_job j (\<lambda>J'. J'\<lparr>interrupt_count :=
                        snd (atomic_dec_and_test (interrupt_count J))\<rparr>) d2
             in if fst (atomic_dec_and_test (interrupt_count J))
                then emit ((if (job_flags J OR RKNPU_JOB_DONE) AND RKNPU_JOB_ASYNC \<noteq> 0
                            then [ScheduleWork j] else [])
                           @ [if use_core_num J > 1 then WakeUp 0 else WakeUp c])
                       (upd_job j (\<lambda>J. J\<lparr>job_flags := job_flags J OR RKNPU_JOB_DONE,
                                           ret := r\<rparr>) d3)
                else d3) c"
  using assms by (simp add: rknpu_job_done_def final_batch_def Let_def case_prod_beta)


lemma job_done_keeps:
  assumes f: "\<And>J x y z. f (J\<lparr>first_task := x, last_task := y, int_mask := z\<rparr>) = f J"
      "\<And>J r. f (J\<lparr>ret := r\<rparr>) = f J"
      "\<And>J n. f (J\<lparr>run_count := n\<rparr>) = f J"
      "\<And>J n. f (J\<lparr>interrupt_count := n\<rparr>) = f J"
      "\<And>J n. f (J\<lparr>job_flags := n\<rparr>) = f J"
      "\<And>J n. f (J\<lparr>submit_count := (submit_count J)(c := n)\<rparr>) = f J"
  shows "map_option f (jobs (rknpu_job_done d h r c) j) = map_option f (jobs d j)"
proof (cases "jobs d h")
  case None
  then show ?thesis by (simp add: rknpu_job_done_def)
next
  case (Some H)
  show ?thesis
  proof (cases "final_batch d h c")
    case True
    show ?thesis
      unfolding job_done_last [OF Some True]
      by (subst job_next_keeps [where f = f, OF f(1,2,3)])
        (auto simp add: Let_def f upd_job_def Some split: option.split)
  next
    case False
    show ?thesis
      unfolding job_done_more [OF Some False]
      by (subst subcore_commit_keeps [where f = f, OF f(1,2)])
        (auto simp add: Let_def f upd_job_def Some split: option.split)
  qed
qed

lemma job_done_wake_ups:
  assumes J: "jobs d j = Some J"
    and rng: "- 2147483648 \<le> interrupt_count J" "interrupt_count J \<le> 2147483647"
  shows "wake_ups (events (rknpu_job_done d j r c))
         = wake_ups (events d)
           @ (if final_batch d j c \<and> interrupt_count J = 1
              then [if use_core_num J > 1 then 0 else c] else [])"
proof (cases "final_batch d j c")
  case True
  show ?thesis
    unfolding job_done_last [OF J True]
    by (simp add: Let_def dec_and_test_one(1) [OF rng] True)
next
  case False
  show ?thesis
    unfolding job_done_more [OF J False] by (simp add: False)
qed

lemma job_done_flags:
  assumes J: "jobs d j = Some J"
    and rng: "- 2147483648 \<le> interrupt_count J" "interrupt_count J \<le> 2147483647"
  shows "map_option job_flags (jobs (rknpu_job_done d j r c) j)
         = Some (if final_batch d j c \<and> interrupt_count J = 1
                 then job_flags J OR RKNPU_JOB_DONE else job_flags J)"
proof (cases "final_batch d j c")
  case True
  show ?thesis
    unfolding job_done_last [OF J True]
    by (subst job_next_keeps) (simp_all add: Let_def dec_and_test_one(1) [OF rng] True J)
next
  case False
  show ?thesis
    unfolding job_done_more [OF J False]
    by (subst subcore_commit_keeps) (simp_all add: False J)
qed

lemma job_done_counter:
  assumes J: "jobs d j = Some J"
  shows "map_option interrupt_count (jobs (rknpu_job_done d j r c) j)
         = Some (if final_batch d j c then wrap32 (interrupt_count J - 1)
                 else interrupt_count J)"
proof (cases "final_batch d j c")
  case True
  show ?thesis
    unfolding job_done_last [OF J True]
    by (subst job_next_keeps) (simp_all add: Let_def True J atomic_dec_and_test_def)
next
  case False
  show ?thesis
    unfolding job_done_more [OF J False]
    by (subst subcore_commit_keeps) (simp_all add: False J)
qed

lemma job_done_ret:
  assumes J: "jobs d j = Some J" and fin: "final_batch d j c"
    and rng: "- 2147483648 \<le> interrupt_count J" "interrupt_count J \<le> 2147483647"
    and q: "j \<notin> set (todo_list (subcore_datas d c))"
  shows "map_option ret (jobs (rknpu_job_done d j r c) j)
         = Some (if interrupt_count J = 1 then r else ret J)"
  unfolding job_done_last [OF J fin]
  by (subst job_next_other) (simp_all add: Let_def dec_and_test_one(1) [OF rng] J q)


lemma job_done_step:
  assumes J: "jobs d j = Some J"
    and rng: "- 2147483648 < interrupt_count J" "interrupt_count J \<le> 2147483647"
  shows "\<exists>J1. jobs (rknpu_job_done d j r c) j = Some J1
     \<and> interrupt_count J1 = (if final_batch d j c then interrupt_count J - 1 else interrupt_count J)
     \<and> job_flags J1 = (if final_batch d j c \<and> interrupt_count J = 1
                       then job_flags J OR RKNPU_JOB_DONE else job_flags J)
     \<and> use_core_num J1 = use_core_num J \<and> args J1 = args J
     \<and> (\<forall>c'. c' \<noteq> c \<longrightarrow> submit_count J1 c' = submit_count J c')"
proof -
  have w: "wrap32 (interrupt_count J - 1) = interrupt_count J - 1"
    using rng by (intro wrap32_id) linarith+
  have rng': "- 2147483648 \<le> interrupt_count J" using rng by simp
  have k: "map_option (\<lambda>J. (use_core_num J, args J, \<lambda>c'. if c' = c then 0 else submit_count J c'))
             (jobs (rknpu_job_done d j r c) j)
           = map_option (\<lambda>J. (use_core_num J, args J, \<lambda>c'. if c' = c then 0 else submit_count J c'))
             (jobs d j)"
    by (rule job_done_keeps) (simp_all add: fun_eq_iff)
  from job_done_counter [OF J, of r c] obtain J1
    where J1: "jobs (rknpu_job_done d j r c) j = Some J1" by auto
  from k J1 J have "use_core_num J1 = use_core_num J" "args J1 = args J"
    "(\<lambda>c'. if c' = c then 0 else submit_count J1 c') = (\<lambda>c'. if c' = c then 0 else submit_count J c')"
    by simp_all
  moreover from this(3) have "\<forall>c'. c' \<noteq> c \<longrightarrow> submit_count J1 c' = submit_count J c'"
    by (metis (full_types))
  moreover from job_done_counter [OF J, of r c] J1 w
  have "interrupt_count J1 = (if final_batch d j c then interrupt_count J - 1 else interrupt_count J)"
    by simp
  moreover from job_done_flags [OF J rng' rng(2), of r c] J1
  have "job_flags J1 = (if final_batch d j c \<and> interrupt_count J = 1
                       then job_flags J OR RKNPU_JOB_DONE else job_flags J)"
    by simp
  ultimately show ?thesis using J1 by simp
qed

lemma completions_once:
  assumes "jobs d j = Some J"
    and "- 2147483648 + int (length xs) \<le> interrupt_count J" "interrupt_count J \<le> 2147483647"
  shows "\<exists>J' ws. jobs (completions_of d j xs) j = Some J'
     \<and> interrupt_count J' \<le> interrupt_count J
     \<and> interrupt_count J - int (length xs) \<le> interrupt_count J'
     \<and> use_core_num J' = use_core_num J
     \<and> job_flags J' = (if 0 < interrupt_count J \<and> interrupt_count J' \<le> 0
                       then job_flags J OR RKNPU_JOB_DONE else job_flags J)
     \<and> wake_ups (events (completions_of d j xs)) = wake_ups (events d) @ ws
     \<and> length ws = (if 0 < interrupt_count J \<and> interrupt_count J' \<le> 0 then 1 else 0)
     \<and> (1 < use_core_num J \<longrightarrow> set ws \<subseteq> {0})"
  using assms
proof (induction xs arbitrary: d J)
  case Nil
  then show ?case by auto
next
  case (Cons x xs)
  let ?d1 = "rknpu_job_done d j (fst x) (snd x)"
  have lo: "- 2147483648 < interrupt_count J" "- 2147483648 \<le> interrupt_count J"
    using Cons.prems(2) by simp_all
  from job_done_step [OF Cons.prems(1) lo(1) Cons.prems(3), of "fst x" "snd x"]
  obtain J1 where J1: "jobs ?d1 j = Some J1"
    and c1: "interrupt_count J1
             = (if final_batch d j (snd x) then interrupt_count J - 1 else interrupt_count J)"
    and f1: "job_flags J1 = (if final_batch d j (snd x) \<and> interrupt_count J = 1
                            then job_flags J OR RKNPU_JOB_DONE else job_flags J)"
    and u1: "use_core_num J1 = use_core_num J"
    by blast
  note w1 = job_done_wake_ups [OF Cons.prems(1) lo(2) Cons.prems(3), of "fst x" "snd x"]
  have r1: "- 2147483648 + int (length xs) \<le> interrupt_count J1" "interrupt_count J1 \<le> 2147483647"
    using c1 Cons.prems(2,3) by (simp_all split: if_splits)
  from Cons.IH [OF J1 r1] obtain J' ws
    where a: "jobs (completions_of ?d1 j xs) j = Some J'"
      and b: "interrupt_count J' \<le> interrupt_count J1"
        "interrupt_count J1 - int (length xs) \<le> interrupt_count J'"
        "use_core_num J' = use_core_num J1"
      and fl: "job_flags J' = (if 0 < interrupt_count J1 \<and> interrupt_count J' \<le> 0
                       then job_flags J1 OR RKNPU_JOB_DONE else job_flags J1)"
      and wk: "wake_ups (events (completions_of ?d1 j xs)) = wake_ups (events ?d1) @ ws"
        "length ws = (if 0 < interrupt_count J1 \<and> interrupt_count J' \<le> 0 then 1 else 0)"
        "1 < use_core_num J1 \<longrightarrow> set ws \<subseteq> {0}"
    by blast
  define ws0 where "ws0 = (if final_batch d j (snd x) \<and> interrupt_count J = 1
              then [if use_core_num J > 1 then 0 else snd x] else [])"
  have w1': "wake_ups (events ?d1) = wake_ups (events d) @ ws0"
    using w1 by (simp add: ws0_def)
  have g1: "interrupt_count J' \<le> interrupt_count J"
    using b(1) c1 by (simp split: if_splits)
  have g2: "interrupt_count J - int (length (x # xs)) \<le> interrupt_count J'"
    using b(2) c1 by (simp split: if_splits)
  have g3: "job_flags J' = (if 0 < interrupt_count J \<and> interrupt_count J' \<le> 0
                       then job_flags J OR RKNPU_JOB_DONE else job_flags J)"
    using fl f1 c1 b(1) by (auto simp add: word_bw_assocs split: if_splits)
  have g4: "length (ws0 @ ws) = (if 0 < interrupt_count J \<and> interrupt_count J' \<le> 0 then 1 else 0)"
    using wk(2) c1 b(1) by (auto simp add: ws0_def split: if_splits)
  have g5: "1 < use_core_num J \<longrightarrow> set (ws0 @ ws) \<subseteq> {0}"
    using wk(3) u1 by (auto simp add: ws0_def)
  have g6: "wake_ups (events (completions_of d j (x # xs))) = wake_ups (events d) @ (ws0 @ ws)"
    using wk(1) w1' by simp
  show ?case
    apply (rule exI [where x = J'])
    apply (rule exI [where x = "ws0 @ ws"])
    using a g1 g2 g3 g4 g5 g6 b(3) u1 by simp
qed

lemma final_batch_cong:
  assumes "jobs d j = Some J" "jobs d' j = Some J'" "config d' = config d"
    "args J' = args J" "use_core_num J' = use_core_num J" "submit_count J' c = submit_count J c"
  shows "final_batch d' j c = final_batch d j c"
  using assms
  by (simp add: final_batch_def batch_rounds_def rknpu_get_task_number_def)

lemma completions_all_final:
  assumes "jobs d j = Some J"
    and "- 2147483648 + int (length xs) \<le> interrupt_count J" "interrupt_count J \<le> 2147483647"
    and "distinct (map snd xs)" and "\<forall>x \<in> set xs. final_batch d j (snd x)"
  shows "map_option interrupt_count (jobs (completions_of d j xs) j)
         = Some (interrupt_count J - int (length xs))"
  using assms
proof (induction xs arbitrary: d J)
  case Nil
  then show ?case by simp
next
  case (Cons x xs)
  let ?d1 = "rknpu_job_done d j (fst x) (snd x)"
  have lo: "- 2147483648 < interrupt_count J"
    using Cons.prems(2) by simp
  have fx: "final_batch d j (snd x)" using Cons.prems(5) by simp
  from job_done_step [OF Cons.prems(1) lo Cons.prems(3), of "fst x" "snd x"]
  obtain J1 where J1: "jobs ?d1 j = Some J1"
    and c1: "interrupt_count J1 = interrupt_count J - 1"
    and k1: "use_core_num J1 = use_core_num J" "args J1 = args J"
      "\<forall>c'. c' \<noteq> snd x \<longrightarrow> submit_count J1 c' = submit_count J c'"
    using fx by auto
  have r1: "- 2147483648 + int (length xs) \<le> interrupt_count J1" "interrupt_count J1 \<le> 2147483647"
    using c1 Cons.prems(2,3) by simp_all
  have d1: "distinct (map snd xs)" using Cons.prems(4) by simp
  have f1: "\<forall>y \<in> set xs. final_batch ?d1 j (snd y)"
  proof
    fix y assume y: "y \<in> set xs"
    then have "snd y \<noteq> snd x" using Cons.prems(4) by (metis distinct.simps(2) image_eqI list.simps(9) set_map)
    then have "submit_count J1 (snd y) = submit_count J (snd y)" using k1(3) by simp
    from final_batch_cong [OF Cons.prems(1) J1 _ k1(2) k1(1) this]
    have "final_batch ?d1 j (snd y) = final_batch d j (snd y)" by simp
    then show "final_batch ?d1 j (snd y)" using Cons.prems(5) y by simp
  qed
  from Cons.IH [OF J1 r1 d1 f1] c1 show ?case by (auto simp add: algebra_simps)
qed

lemma bit_pick:
  fixes m :: "32 word"
  shows "m AND 1 = of_bool (bit m 0)"
    "drop_bit 1 (m AND 2) = of_bool (bit m 1)"
    "drop_bit 2 (m AND 4) = of_bool (bit m 2)"
proof -
  show "m AND 1 = of_bool (bit m 0)"
    by (simp add: and_one_eq bit_0 mod2_eq_if)
  have "drop_bit 1 (2 :: 32 word) = 1" "drop_bit 2 (4 :: 32 word) = 1"
    by (simp_all add: drop_bit_eq_div)
  then have "drop_bit 1 (m AND 2) = drop_bit 1 m AND 1" "drop_bit 2 (m AND 4) = drop_bit 2 m AND 1"
    by (simp_all add: drop_bit_and)
  then show "drop_bit 1 (m AND 2) = of_bool (bit m 1)" "drop_bit 2 (m AND 4) = of_bool (bit m 2)"
    by (simp_all add: and_one_eq bit_iff_odd_drop_bit mod2_eq_if)
qed

lemma use_core_num_count:
  fixes m :: "32 word"
  shows "sint ((m AND RKNPU_CORE0_MASK) + drop_bit 1 (m AND RKNPU_CORE1_MASK)
               + drop_bit 2 (m AND RKNPU_CORE2_MASK))
         = int (length (filter (bit m) [0 ..< 3]))"
  unfolding RKNPU_CORE0_MASK_def RKNPU_CORE1_MASK_def RKNPU_CORE2_MASK_def bit_pick upt3
  by (cases "bit m 0"; cases "bit m 1"; cases "bit m 2"; simp)

lemma alloc_counter:
  assumes "rknpu_job_alloc d a env = Some (j, d')"
  shows "map_option (\<lambda>J. (interrupt_count J, use_core_num J, job_flags J)) (jobs d' j)
         = Some (int (length (filter (bit (core_mask a)) [0 ..< 3])),
                 int (length (filter (bit (core_mask a)) [0 ..< 3])), 0)"
  using assms use_core_num_count [of "core_mask a"]
  by (auto simp add: rknpu_job_alloc_def Let_def simp del: drop_bit_and split: if_splits)

lemma schedule_auto_counter:
  assumes "jobs d j = Some J" "core_mask (args J) = RKNPU_CORE_AUTO_MASK"
  shows "map_option (\<lambda>J. (interrupt_count J, use_core_num J)) (jobs (rknpu_job_schedule d j) j)
         = Some (1, 1)"
proof -
  have a: "map_option (\<lambda>J. (interrupt_count J, use_core_num J)) (jobs (schedule_enqueue d j) j)
         = Some (1, 1)"
    unfolding schedule_enqueue_def Let_def
    by (subst fold_keeps [where g = jobs]) (auto simp add: assms job_core_mask_def split: option.split)
  have "map_option (\<lambda>J. (interrupt_count J, use_core_num J)) (jobs (rknpu_job_schedule d j) j)
        = map_option (\<lambda>J. (interrupt_count J, use_core_num J)) (jobs (schedule_enqueue d j) j)"
    unfolding rknpu_job_schedule_def
    by (rule fold_pres [where P = "\<lambda>d'. map_option (\<lambda>J. (interrupt_count J, use_core_num J)) (jobs d' j)
        = map_option (\<lambda>J. (interrupt_count J, use_core_num J)) (jobs (schedule_enqueue d j) j)"])
      (simp_all add: job_next_keeps)
  with a show ?thesis by simp
qed


text \<open>
  C1. \<^verbatim>\<open>rknpu_job_alloc\<close> sets the interrupt counter of a new job to the number of cores
  (0, 1, 2) named by its mask, with the done flag clear, and \<^verbatim>\<open>rknpu_job_schedule\<close> sets
  it to 1 for a job with the automatic mask. For a job whose counter is a C \<^verbatim>\<open>int\<close>, one
  call of \<^verbatim>\<open>rknpu_job_done\<close> on core \<open>c\<close> lowers the counter by one when it is the
  core's last batch and leaves it alone otherwise; it sets the done flag and wakes a waiter
  exactly when it is a last batch and the counter stood at 1, and then the single wake-up
  goes to queue 0 for a job of more than one core and to queue \<open>c\<close> otherwise, and the
  result recorded for a job that is not queued on \<open>c\<close> is the one passed to that call.
  Over any sequence \<open>xs\<close> of completions of the job (short enough for the counter not to
  wrap) the counter never rises; the flag is set and one wake-up is issued if the counter
  started positive and has come down to zero or below, and otherwise the flags are
  unchanged and there is no wake-up: completions that arrive after the counter reached
  zero change neither. When \<open>xs\<close> names distinct cores that are all on their last batch, the
  counter after the first \<open>k\<close> of them is the initial value minus \<open>k\<close>, so it is zero
  after exactly the \<open>n\<close>-th completion for an initial value \<open>n\<close>.
\<close>

theorem interrupt_count_zero_once:
  assumes J: "jobs d j = Some J"
    and rng: "- 2147483648 + int (length xs) < interrupt_count J" "interrupt_count J \<le> 2147483647"
  shows "(\<forall>a env j0 d0. rknpu_job_alloc d a env = Some (j0, d0) \<longrightarrow>
            map_option (\<lambda>J. (interrupt_count J, use_core_num J, job_flags J)) (jobs d0 j0)
            = Some (int (length (filter (bit (core_mask a)) [0 ..< 3])),
                    int (length (filter (bit (core_mask a)) [0 ..< 3])), 0))
     \<and> (core_mask (args J) = RKNPU_CORE_AUTO_MASK \<longrightarrow>
            map_option (\<lambda>J. (interrupt_count J, use_core_num J)) (jobs (rknpu_job_schedule d j) j)
            = Some (1, 1))
     \<and> map_option (\<lambda>J. (interrupt_count J, job_flags J)) (jobs (rknpu_job_done d j r c) j)
         = Some (if final_batch d j c then interrupt_count J - 1 else interrupt_count J,
                 if final_batch d j c \<and> interrupt_count J = 1
                 then job_flags J OR RKNPU_JOB_DONE else job_flags J)
     \<and> wake_ups (events (rknpu_job_done d j r c))
         = wake_ups (events d)
           @ (if final_batch d j c \<and> interrupt_count J = 1
              then [if use_core_num J > 1 then 0 else c] else [])
     \<and> (final_batch d j c \<longrightarrow> j \<notin> set (todo_list (subcore_datas d c)) \<longrightarrow>
            map_option ret (jobs (rknpu_job_done d j r c) j)
            = Some (if interrupt_count J = 1 then r else ret J))
     \<and> (\<exists>J' ws. jobs (completions_of d j xs) j = Some J'
           \<and> interrupt_count J' \<le> interrupt_count J
           \<and> job_flags J' = (if 0 < interrupt_count J \<and> interrupt_count J' \<le> 0
                             then job_flags J OR RKNPU_JOB_DONE else job_flags J)
           \<and> wake_ups (events (completions_of d j xs)) = wake_ups (events d) @ ws
           \<and> length ws = (if 0 < interrupt_count J \<and> interrupt_count J' \<le> 0 then 1 else 0)
           \<and> (1 < use_core_num J \<longrightarrow> set ws \<subseteq> {0}))
     \<and> (distinct (map snd xs) \<longrightarrow> (\<forall>x \<in> set xs. final_batch d j (snd x)) \<longrightarrow>
          (\<forall>k \<le> length xs.
             map_option interrupt_count (jobs (completions_of d j (take k xs)) j)
             = Some (interrupt_count J - int k)))"
proof -
  have lo: "- 2147483648 < interrupt_count J" "- 2147483648 \<le> interrupt_count J"
    "- 2147483648 + int (length xs) \<le> interrupt_count J"
    using rng(1) by simp_all
  have p1: "\<forall>a env j0 d0. rknpu_job_alloc d a env = Some (j0, d0) \<longrightarrow>
            map_option (\<lambda>J. (interrupt_count J, use_core_num J, job_flags J)) (jobs d0 j0)
            = Some (int (length (filter (bit (core_mask a)) [0 ..< 3])),
                    int (length (filter (bit (core_mask a)) [0 ..< 3])), 0)"
    using alloc_counter by blast
  have p2: "core_mask (args J) = RKNPU_CORE_AUTO_MASK \<longrightarrow>
            map_option (\<lambda>J. (interrupt_count J, use_core_num J)) (jobs (rknpu_job_schedule d j) j)
            = Some (1, 1)"
    using schedule_auto_counter [OF J] by blast
  from job_done_step [OF J lo(1) rng(2), of r c]
  have p3: "map_option (\<lambda>J. (interrupt_count J, job_flags J)) (jobs (rknpu_job_done d j r c) j)
         = Some (if final_batch d j c then interrupt_count J - 1 else interrupt_count J,
                 if final_batch d j c \<and> interrupt_count J = 1
                 then job_flags J OR RKNPU_JOB_DONE else job_flags J)"
    by auto
  note p4 = job_done_wake_ups [OF J lo(2) rng(2), of r c]
  have p5: "final_batch d j c \<longrightarrow> j \<notin> set (todo_list (subcore_datas d c)) \<longrightarrow>
            map_option ret (jobs (rknpu_job_done d j r c) j)
            = Some (if interrupt_count J = 1 then r else ret J)"
    using job_done_ret [OF J _ lo(2) rng(2)] by blast
  from completions_once [OF J lo(3) rng(2)]
  have p6: "\<exists>J' ws. jobs (completions_of d j xs) j = Some J'
           \<and> interrupt_count J' \<le> interrupt_count J
           \<and> job_flags J' = (if 0 < interrupt_count J \<and> interrupt_count J' \<le> 0
                             then job_flags J OR RKNPU_JOB_DONE else job_flags J)
           \<and> wake_ups (events (completions_of d j xs)) = wake_ups (events d) @ ws
           \<and> length ws = (if 0 < interrupt_count J \<and> interrupt_count J' \<le> 0 then 1 else 0)
           \<and> (1 < use_core_num J \<longrightarrow> set ws \<subseteq> {0})"
    by blast
  have p7: "map_option interrupt_count (jobs (completions_of d j (take k xs)) j)
             = Some (interrupt_count J - int k)"
    if dx: "distinct (map snd xs)" and fx: "\<forall>x \<in> set xs. final_batch d j (snd x)"
      and k: "k \<le> length xs" for k
  proof -
    have l: "length (take k xs) = k" using k by simp
    have a: "- 2147483648 + int (length (take k xs)) \<le> interrupt_count J"
      using lo(3) k by simp
    have b: "distinct (map snd (take k xs))"
      using dx by (simp add: take_map [symmetric] distinct_take)
    have c: "\<forall>x \<in> set (take k xs). final_batch d j (snd x)"
      using fx by (meson in_set_takeD)
    from completions_all_final [OF J a rng(2) b c] l show ?thesis by simp
  qed
  show ?thesis
    apply (intro conjI)
    apply (rule p1)
    apply (rule p2)
    apply (rule p3)
    apply (rule p4)
    apply (rule p5)
    apply (rule p6)
    using p7 apply blast
    done
qed

lemma running_3_eval:
  "jobs running_3 0 \<noteq> None"
  "interrupt_count (the (jobs running_3 0)) = 2"
  "use_core_num (the (jobs running_3 0)) = 2"
  "job_flags (the (jobs running_3 0)) = 0"
  "final_batch running_3 0 0"
  "final_batch running_3 0 1"
  by code_simp+

theorem interrupt_count_zero_once_witness:
  "map_option interrupt_count (jobs (completions_of running_3 0 [(0, 0)]) 0) = Some 1
   \<and> map_option interrupt_count (jobs (completions_of running_3 0 [(0, 0), (0, 1)]) 0) = Some 0
   \<and> wake_ups (events (rknpu_job_done running_3 0 0 0)) = wake_ups (events running_3)
   \<and> map_option job_flags (jobs (completions_of running_3 0 [(0, 0), (0, 1)]) 0)
       = Some RKNPU_JOB_DONE
   \<and> wake_ups (events (completions_of running_3 0 [(0, 0), (0, 1)]))
       = wake_ups (events running_3) @ [0]"
proof -
  obtain J where J: "jobs running_3 0 = Some J"
    using running_3_eval(1) by blast
  note e = running_3_eval(2-6) [unfolded J option.sel]
  note t = interrupt_count_zero_once [where d = running_3 and j = 0 and J = J
      and xs = "[(0, 0), (0, 1)]" and r = 0 and c = 0, OF J]
  have h: "- 2147483648 + int (length [(0::int, 0::nat), (0, 1)]) < interrupt_count J"
    "interrupt_count J \<le> 2147483647"
    by (simp_all add: e(1))
  note t' = t [OF h]
  from t' have w1: "wake_ups (events (rknpu_job_done running_3 0 0 0)) = wake_ups (events running_3)"
    by (simp add: e)
  from t' have s: "\<forall>k \<le> length [(0::int, 0::nat), (0, 1)].
             map_option interrupt_count
               (jobs (completions_of running_3 0 (take k [(0::int, 0::nat), (0, 1)])) 0)
             = Some (interrupt_count J - int k)"
    using e(4,5) by simp
  from s [rule_format, of 1]
  have c1: "map_option interrupt_count (jobs (completions_of running_3 0 [(0, 0)]) 0) = Some 1"
    by (simp add: e(1))
  from s [rule_format, of 2]
  have c2: "map_option interrupt_count (jobs (completions_of running_3 0 [(0, 0), (0, 1)]) 0)
            = Some 0"
    by (simp add: e(1))
  from t' obtain J' ws where q: "jobs (completions_of running_3 0 [(0, 0), (0, 1)]) 0 = Some J'"
    "job_flags J' = (if 0 < interrupt_count J \<and> interrupt_count J' \<le> 0
                             then job_flags J OR RKNPU_JOB_DONE else job_flags J)"
    "wake_ups (events (completions_of running_3 0 [(0, 0), (0, 1)]))
       = wake_ups (events running_3) @ ws"
    "length ws = (if 0 < interrupt_count J \<and> interrupt_count J' \<le> 0 then 1 else 0)"
    "1 < use_core_num J \<longrightarrow> set ws \<subseteq> {0}"
    by blast
  from c2 q(1) have z: "interrupt_count J' = 0" by simp
  from q(4) z e(1) have "length ws = 1" by simp
  then obtain w where "ws = [w]" by (cases ws) simp_all
  with q(5) e(2) have ws: "ws = [0]" by simp
  from q(2) z e(1,3) have "job_flags J' = RKNPU_JOB_DONE" by simp
  with q(1) q(3) ws c1 c2 w1 show ?thesis by simp
qed

section \<open>The commit of a multi-core job: the state before the dispatch\<close>
















end
